theory Spec2Isabelle
  imports Complex_Main
begin

section \<open>LoopLens: the analysis engine of the video analyzer\<close>

text \<open>
  The development embeds \<open>startAnalysis\<close> and \<open>mergeSet\<close> of the video analyzer
  component. JavaScript numbers are modelled as exact reals (no rounding, no NaN, no
  infinities); array indices and sample counts are integers or naturals. Where the HOL
  convention \<open>x / 0 = 0\<close> differs from JavaScript (NaN or an infinity) the text says so.
\<close>

subsection \<open>Data model (types.ts)\<close>

datatype DetectionMode = Reps | Sets

text \<open>
  \<open>AnalysisConfig\<close>. The field \<open>smoothingWindow\<close> is used as a loop offset of array
  indices, so it is an integer here.
\<close>

record AnalysisConfig =
  sensitivity :: real
  minLoopDuration :: real
  maxLoopDuration :: real
  samplingRate :: real
  smoothingWindow :: int
  detectionMode :: DetectionMode
  detectSceneChanges :: bool
  ignoreSteadyMotion :: bool
  audioWeight :: real

text \<open>
  One element of \<open>combinedData\<close>: \<open>{time, value, isSceneCut}\<close> together with the
  attached \<open>_raw = {v, a}\<close>, which every later object spread carries along.
  The source's field \<open>value\<close> is \<open>val\<close> here.
\<close>

record Sample =
  time :: real
  val :: real
  isSceneCut :: bool
  raw_v :: real
  raw_a :: real

text \<open>A peak is a smoothed sample together with its index: \<open>{...smoothedData[i], index: i}\<close>.\<close>

record Peak = Sample +
  index :: nat

text \<open>
  Identifiers and labels are template strings over numbers in the source
  (\<open>atom-${i}\<close>, \<open>rep-${Date.now()}-${i}\<close>, \<open>set-${Date.now()}-${first.startTime}\<close>,
  \<open>Repetition ${i+1}\<close>, \<open>Set of ${n} Reps\<close>); they are kept structured.
\<close>

datatype LoopId = AtomId nat | RepId nat nat | SetId nat real

datatype LoopLabel = Repetition nat | SetOfReps nat

record DetectedLoop =
  loop_id :: LoopId
  startTime :: real
  endTime :: real
  duration :: real
  bpm :: int
  confidence :: real
  repCount :: nat
  thumbnail :: "string option"
  label :: "LoopLabel option"

datatype js_error = TypeError

subsection \<open>JavaScript helpers\<close>

text \<open>\<open>x || d\<close> on numbers: \<open>d\<close> when \<open>x\<close> is falsy, that is \<open>0\<close> (or NaN).\<close>

definition js_or :: "'a::zero \<Rightarrow> 'a \<Rightarrow> 'a" where
  "js_or x d = (if x = 0 then d else x)"

text \<open>\<open>Math.round\<close>: the nearest integer, halves upwards.\<close>

definition js_round :: "real \<Rightarrow> int" where
  "js_round x = \<lfloor>x + 1 / 2\<rfloor>"

text \<open>
  Reading a property of \<open>arr[k]\<close>: outside the array the element is \<open>undefined\<close> and the
  property access throws a TypeError.
\<close>

definition js_nth :: "'a list \<Rightarrow> int \<Rightarrow> js_error + 'a" where
  "js_nth arr k = (if 0 \<le> k \<and> k < int (length arr) then Inr (arr ! nat k) else Inl TypeError)"

text \<open>\<open>arr.map((d, i, arr) => f d i arr)\<close>.\<close>

definition map_indexed :: "('a \<Rightarrow> nat \<Rightarrow> 'a list \<Rightarrow> 'b) \<Rightarrow> 'a list \<Rightarrow> 'b list" where
  "map_indexed f arr = map (\<lambda>i. f (arr ! i) i arr) [0..<length arr]"

subsection \<open>Post processing and fusion\<close>

text \<open>
  \<open>combinedData.reduce((acc, d) => acc + d._raw.v, 0) / combinedData.length || 1\<close>.
  On the empty sequence JavaScript has \<open>0 / 0 = NaN\<close>, which is falsy; HOL has
  \<open>0 / 0 = 0\<close>, which is falsy too: both give 1.
\<close>

definition avgV :: "Sample list \<Rightarrow> real" where
  "avgV combinedData =
     js_or (foldl (\<lambda>acc d. acc + raw_v d) 0 combinedData / real (length combinedData)) 1"

definition avgA :: "Sample list \<Rightarrow> real" where
  "avgA combinedData =
     js_or (foldl (\<lambda>acc d. acc + raw_a d) 0 combinedData / real (length combinedData)) 1"

text \<open>The clamped, normalised components of one instant.\<close>

definition normV :: "Sample list \<Rightarrow> Sample \<Rightarrow> real" where
  "normV combinedData d = min 1 (raw_v d / (avgV combinedData * 2))"

definition normA :: "Sample list \<Rightarrow> Sample \<Rightarrow> real" where
  "normA combinedData d = min 1 (raw_a d / (avgA combinedData * 2))"

definition fusedValue :: "AnalysisConfig \<Rightarrow> Sample list \<Rightarrow> Sample \<Rightarrow> real" where
  "fusedValue config combinedData d =
     (let wA = audioWeight config / 100;
          wV = 1 - wA
      in normV combinedData d * wV + normA combinedData d * wA)"

definition processedData :: "AnalysisConfig \<Rightarrow> Sample list \<Rightarrow> Sample list" where
  "processedData config combinedData =
     map (\<lambda>d. d\<lparr>val := fusedValue config combinedData d * 255\<rparr>) combinedData"

text \<open>
  1.1 Scene cuts: the flags are written into the processed samples when the detection
  is enabled.
\<close>

definition sceneCutThreshold :: "Sample list \<Rightarrow> real" where
  "sceneCutThreshold combinedData =
     (let visualRunningSum = foldl (\<lambda>acc d. acc + raw_v d) 0 combinedData;
          vAvg = visualRunningSum / real (length combinedData)
      in vAvg * 6)"

definition flagSceneCuts :: "AnalysisConfig \<Rightarrow> Sample list \<Rightarrow> Sample list \<Rightarrow> Sample list" where
  "flagSceneCuts config combinedData processed =
     (if detectSceneChanges config
      then map (\<lambda>d. if raw_v d > sceneCutThreshold combinedData
                     then d\<lparr>isSceneCut := True\<rparr> else d) processed
      else processed)"

text \<open>
  The moving-average loop shared by detrending and smoothing:
  \<open>for (j = max(0, i - w); j <= min(arr.length - 1, i + w); j++) { sum += arr[j].value; count++ }\<close>.
  It returns \<open>(sum, count)\<close>, named \<open>(s, c)\<close> below. For a half-width \<open>w \<ge> 0\<close> the range
  holds the index \<open>i\<close>, so the count is positive; for a negative one the range is empty
  and the mean \<open>sum / count\<close> is NaN in the source and 0 here.
\<close>

definition windowLoop :: "Sample list \<Rightarrow> nat \<Rightarrow> int \<Rightarrow> real \<times> nat" where
  "windowLoop arr i w =
     foldl (\<lambda>(s, c) j. (s + val (arr ! nat j), c + 1)) (0, 0)
       [max 0 (int i - w) .. min (int (length arr) - 1) (int i + w)]"

definition windowMean :: "Sample list \<Rightarrow> nat \<Rightarrow> int \<Rightarrow> real" where
  "windowMean arr i w = (case windowLoop arr i w of (s, c) \<Rightarrow> s / real c)"

text \<open>1.2 Detrending (high-pass filter), when enabled.\<close>

definition detrendedData :: "AnalysisConfig \<Rightarrow> Sample list \<Rightarrow> Sample list" where
  "detrendedData config processed =
     (if ignoreSteadyMotion config
      then (let trendWindow = \<lfloor>samplingRate config * 1.5\<rfloor>
            in map_indexed (\<lambda>d i arr. d\<lparr>val := max 0 (val d - windowMean arr i trendWindow)\<rparr>)
                 processed)
      else processed)"

subsection \<open>Peak detection\<close>

definition windowSize :: "AnalysisConfig \<Rightarrow> int" where
  "windowSize config = js_or (smoothingWindow config) 2"

definition smoothedData :: "AnalysisConfig \<Rightarrow> Sample list \<Rightarrow> Sample list" where
  "smoothedData config detrended =
     map_indexed (\<lambda>d i arr. d\<lparr>val := windowMean arr i (windowSize config)\<rparr>) detrended"

definition avgEnergy :: "Sample list \<Rightarrow> real" where
  "avgEnergy smoothed = foldl (\<lambda>acc curr. acc + val curr) 0 smoothed / real (length smoothed)"

definition peakThreshold :: "AnalysisConfig \<Rightarrow> Sample list \<Rightarrow> real" where
  "peakThreshold config smoothed = avgEnergy smoothed * (1 + sensitivity config / 50)"

definition mkPeak :: "Sample \<Rightarrow> nat \<Rightarrow> Peak" where
  "mkPeak s i = \<lparr>time = time s, val = val s, isSceneCut = isSceneCut s,
                 raw_v = raw_v s, raw_a = raw_a s, index = i\<rparr>"

text \<open>
  \<open>for (i = 1; i < smoothedData.length - 1; i++)\<close>; on the empty array the bound is
  \<open>-1\<close> in the source and \<open>0\<close> with the truncating subtraction here: no iteration
  either way.
\<close>

definition isPeakAt :: "AnalysisConfig \<Rightarrow> Sample list \<Rightarrow> nat \<Rightarrow> bool" where
  "isPeakAt config smoothed i =
     (let prev = val (smoothed ! (i - 1));
          curr = val (smoothed ! i);
          next = val (smoothed ! (i + 1))
      in curr > prev \<and> curr > next \<and> curr > peakThreshold config smoothed)"

definition findPeaks :: "AnalysisConfig \<Rightarrow> Sample list \<Rightarrow> Peak list" where
  "findPeaks config smoothed =
     foldl (\<lambda>peaks i. if isPeakAt config smoothed i
                        then peaks @ [mkPeak (smoothed ! i) i] else peaks)
       [] [1..<length smoothed - 1]"

subsection \<open>Atomic loop generation\<close>

text \<open>
  The scan for a scene cut between two peaks,
  \<open>for (k = startPeak.index; k < endPeak.index; k++) if (detrendedData[k].isSceneCut) { hasCut = true; break; }\<close>,
  over the indices it visits.
\<close>

fun hasCutScan :: "Sample list \<Rightarrow> nat list \<Rightarrow> js_error + bool" where
  "hasCutScan detrended [] = Inr False"
| "hasCutScan detrended (k # ks) =
     (case js_nth detrended (int k) of
        Inl e \<Rightarrow> Inl e
      | Inr d \<Rightarrow> if isSceneCut d then Inr True else hasCutScan detrended ks)"

definition hasCut :: "AnalysisConfig \<Rightarrow> Sample list \<Rightarrow> Peak \<Rightarrow> Peak \<Rightarrow> js_error + bool" where
  "hasCut config detrended startPeak endPeak =
     (if detectSceneChanges config
      then hasCutScan detrended [index startPeak..<index endPeak]
      else Inr False)"

definition atomOf :: "nat \<Rightarrow> Peak \<Rightarrow> Peak \<Rightarrow> DetectedLoop" where
  "atomOf i startPeak endPeak =
     (let loopDuration = time endPeak - time startPeak;
          bpm = js_round (60 / loopDuration);
          confidence = min 1.0 ((val startPeak + val endPeak) / (2 * 255) * 5)
      in \<lparr>loop_id = AtomId i, startTime = time startPeak, endTime = time endPeak,
          duration = loopDuration, bpm = bpm, confidence = confidence, repCount = 1,
          thumbnail = None, label = None\<rparr>)"

text \<open>One iteration of the loop over consecutive peak pairs.\<close>

definition atomicStep ::
  "AnalysisConfig \<Rightarrow> Sample list \<Rightarrow> Peak list \<Rightarrow> DetectedLoop list \<Rightarrow> nat
     \<Rightarrow> js_error + DetectedLoop list" where
  "atomicStep config detrended peaks atomicLoops i =
     (let startPeak = peaks ! i;
          endPeak = peaks ! (i + 1);
          loopDuration = time endPeak - time startPeak
      in case hasCut config detrended startPeak endPeak of
           Inl e \<Rightarrow> Inl e
         | Inr cutFound \<Rightarrow>
             if \<not> cutFound \<and> loopDuration \<ge> minLoopDuration config
                \<and> loopDuration \<le> maxLoopDuration config
             then Inr (atomicLoops @ [atomOf i startPeak endPeak])
             else Inr atomicLoops)"

fun atomicLoop ::
  "AnalysisConfig \<Rightarrow> Sample list \<Rightarrow> Peak list \<Rightarrow> nat list \<Rightarrow> DetectedLoop list
     \<Rightarrow> js_error + DetectedLoop list" where
  "atomicLoop config detrended peaks [] atomicLoops = Inr atomicLoops"
| "atomicLoop config detrended peaks (i # is) atomicLoops =
     (case atomicStep config detrended peaks atomicLoops i of
        Inl e \<Rightarrow> Inl e
      | Inr atomicLoops' \<Rightarrow> atomicLoop config detrended peaks is atomicLoops')"

text \<open>\<open>for (i = 0; i < peaks.length - 1; i++)\<close>, starting from the empty list.\<close>

definition atomicLoops ::
  "AnalysisConfig \<Rightarrow> Sample list \<Rightarrow> Peak list \<Rightarrow> js_error + DetectedLoop list" where
  "atomicLoops config detrended peaks =
     atomicLoop config detrended peaks [0..<length peaks - 1] []"

subsection \<open>Final processing: repetitions or sets\<close>

text \<open>
  \<open>mergeSet\<close>. On the empty list \<open>loops[0]\<close> is \<open>undefined\<close> and reading
  \<open>first.startTime\<close> throws. The clock \<open>Date.now()\<close> is the parameter \<open>now\<close>.
\<close>

definition mergeSet :: "nat \<Rightarrow> DetectedLoop list \<Rightarrow> js_error + DetectedLoop" where
  "mergeSet now loops =
     (case loops of
        [] \<Rightarrow> Inl TypeError
      | first # _ \<Rightarrow>
          (let last' = last loops;
               totalDuration = endTime last' - startTime first;
               avgBpm = real_of_int (foldl (\<lambda>acc l. acc + bpm l) 0 loops) / real (length loops);
               avgConf = foldl (\<lambda>acc l. acc + confidence l) 0 loops / real (length loops)
           in Inr \<lparr>loop_id = SetId now (startTime first), startTime = startTime first,
                   endTime = endTime last', duration = totalDuration, bpm = js_round avgBpm,
                   confidence = avgConf, repCount = length loops, thumbnail = None,
                   label = Some (SetOfReps (length loops))\<rparr>))"

text \<open>
  The scan of the gap between two loops for a scene cut,
  \<open>for (k = startIndex; k < endIndex && k < detrendedData.length; k++) if (detrendedData[k].isSceneCut) gapHasCut = true\<close>;
  this one has no \<open>break\<close>.
\<close>

fun gapScan :: "Sample list \<Rightarrow> int list \<Rightarrow> bool \<Rightarrow> js_error + bool" where
  "gapScan detrended [] gapHasCut = Inr gapHasCut"
| "gapScan detrended (k # ks) gapHasCut =
     (case js_nth detrended k of
        Inl e \<Rightarrow> Inl e
      | Inr d \<Rightarrow> gapScan detrended ks (if isSceneCut d then True else gapHasCut))"

definition gapHasCut ::
  "AnalysisConfig \<Rightarrow> Sample list \<Rightarrow> DetectedLoop \<Rightarrow> DetectedLoop \<Rightarrow> js_error + bool" where
  "gapHasCut config detrended prev cur =
     (if detectSceneChanges config
      then (let fps = samplingRate config;
                startIndex = \<lfloor>endTime prev * fps\<rfloor>;
                endIndex = \<lceil>startTime cur * fps\<rceil>
            in gapScan detrended [startIndex .. min endIndex (int (length detrended)) - 1] False)
      else Inr False)"

text \<open>
  The walk over \<open>atomicLoops[1..]\<close> with the open group \<open>currentSet\<close> and the closed
  groups \<open>finalLoops\<close>; after the last loop the open group is closed.
\<close>

fun setsWalk ::
  "AnalysisConfig \<Rightarrow> nat \<Rightarrow> Sample list \<Rightarrow> DetectedLoop list \<Rightarrow> DetectedLoop list
     \<Rightarrow> DetectedLoop list \<Rightarrow> js_error + DetectedLoop list" where
  "setsWalk config now detrended [] currentSet finalLoops =
     (case mergeSet now currentSet of
        Inl e \<Rightarrow> Inl e
      | Inr m \<Rightarrow> Inr (finalLoops @ [m]))"
| "setsWalk config now detrended (cur # rest) currentSet finalLoops =
     (case currentSet of
        [] \<Rightarrow> Inl TypeError
      | _ # _ \<Rightarrow>
          (let prev = last currentSet;
               gap = startTime cur - endTime prev;
               maxGap = max 2.0 (duration prev * 3.0)
           in case gapHasCut config detrended prev cur of
                Inl e \<Rightarrow> Inl e
              | Inr cutFound \<Rightarrow>
                  if gap < maxGap \<and> \<not> cutFound
                  then setsWalk config now detrended rest (currentSet @ [cur]) finalLoops
                  else (case mergeSet now currentSet of
                          Inl e \<Rightarrow> Inl e
                        | Inr m \<Rightarrow> setsWalk config now detrended rest [cur] (finalLoops @ [m]))))"

text \<open>
  4. Final processing. In repetitions mode every atomic loop gets a new identifier and
  the label \<open>Repetition i+1\<close>; in sets mode the walk starts with the first atomic loop
  as the open group, and no loops give no sets.
\<close>

definition finalLoops ::
  "AnalysisConfig \<Rightarrow> nat \<Rightarrow> Sample list \<Rightarrow> DetectedLoop list \<Rightarrow> js_error + DetectedLoop list" where
  "finalLoops config now detrended atomic =
     (if detectionMode config = Reps
      then Inr (map_indexed
                  (\<lambda>l i arr. l\<lparr>loop_id := RepId now i, label := Some (Repetition (i + 1))\<rparr>)
                  atomic)
      else (case atomic of
              [] \<Rightarrow> Inr []
            | first # rest \<Rightarrow> setsWalk config now detrended rest [first] []))"

subsection \<open>Data extraction\<close>

text \<open>
  The decoded audio: its sample rate and the samples of channel 0. A frame is the pixel
  buffer read back from the canvas, one \<open>(r, g, b, a)\<close> quadruple of bytes per pixel, so
  \<open>pixelCount = frame.data.length / 4\<close> is its length. The previous frame is read at the
  same pixel index; the canvas has one fixed size for the whole run.
\<close>

record AudioBuffer =
  sampleRate :: real
  channelData :: "real list"

type_synonym pixel = "nat \<times> nat \<times> nat \<times> nat"

type_synonym frame = "pixel list"

text \<open>
  \<open>getAudioRMS(time, windowSize)\<close>, with the loop
  \<open>for (i = startSample; i < endSample && i < channelData.length; i++)\<close>.
  It is called at times \<open>t \<ge> 0\<close> only, where the indices are not negative.
\<close>

definition getAudioRMS :: "AudioBuffer option \<Rightarrow> real \<Rightarrow> real \<Rightarrow> real" where
  "getAudioRMS audioBuffer t win =
     (case audioBuffer of
        None \<Rightarrow> 0
      | Some buf \<Rightarrow>
          (let startSample = \<lfloor>t * sampleRate buf\<rfloor>;
               endSample = \<lfloor>(t + win) * sampleRate buf\<rfloor>;
               samples = channelData buf
           in case foldl (\<lambda>(sumSq, c) i. (sumSq + samples ! nat i * samples ! nat i, c + 1))
                     (0, 0 :: nat) [startSample .. min endSample (int (length samples)) - 1] of
                (sumSq, c) \<Rightarrow> if c = 0 then 0 else sqrt (sumSq / real c) * 1000))"

definition grayOf :: "pixel \<Rightarrow> real" where
  "grayOf p = (case p of (r, g, b, a) \<Rightarrow> 0.299 * real r + 0.587 * real g + 0.114 * real b)"

text \<open>
  The body of \<open>captureFrame\<close> after the seek: the pair \<open>(vScore, variance)\<close> of the frame
  against the previous one (\<open>None\<close> at the first sample).
\<close>

definition captureFrame :: "frame \<Rightarrow> frame option \<Rightarrow> real \<times> real" where
  "captureFrame frame prevFrameData =
     (let pixelCount = real (length frame)
      in case foldl (\<lambda>(diffScore, pxSum, pxSumSq) i.
                 (let gray = grayOf (frame ! i)
                  in ((case prevFrameData of
                         None \<Rightarrow> diffScore
                       | Some prevFrame \<Rightarrow> diffScore + sqrt \<bar>gray - grayOf (prevFrame ! i)\<bar>),
                      pxSum + gray, pxSumSq + gray * gray)))
               (0, 0, 0) [0..<length frame] of
           (diffScore, pxSum, pxSumSq) \<Rightarrow>
             (let mean = pxSum / pixelCount;
                  variance = pxSumSq / pixelCount - mean * mean
              in (diffScore / pixelCount, variance)))"

subsection \<open>The run and what it reports\<close>

datatype AppState = IDLE | LOADING_VIDEO | ANALYZING | READY

datatype LogLevel = Info | Warn | Error | Success

datatype LogMessage =
    StartingHybridAnalysis real real real
  | CanvasContextFailed
  | DecodingAudioTrack
  | AudioTrackDecoded
  | FailedToDecodeAudio
  | AppliedHighPassFilter
  | AnalysisComplete nat
  | AnalysisFailed js_error

text \<open>The calls of the component's callbacks, in the order they are made.\<close>

datatype Event =
    SetAppState AppState
  | AddLog LogLevel LogMessage
  | OnLoopsDetected "DetectedLoop list"
  | OnProgress real
  | OnMotionDataUpdate "Sample list"

text \<open>
  What the run finds around it: whether the video element, the canvas and the file are
  there, whether the canvas gives a 2d context, what decoding the file's audio returns
  (\<open>None\<close> when it throws), the video's duration, the frame drawn after a seek to a
  time, the thumbnail captured at a time, and the clock.
\<close>

record Env =
  refsReady :: bool
  context2d :: bool
  decodeAudioData :: "AudioBuffer option"
  videoDuration :: real
  seekFrame :: "real \<Rightarrow> frame"
  thumbnailAt :: "real \<Rightarrow> string"
  dateNow :: nat

text \<open>The audio set-up: decoding is tried only when the audio weight is positive.\<close>

definition audioSetup :: "Env \<Rightarrow> AnalysisConfig \<Rightarrow> AudioBuffer option \<times> Event list" where
  "audioSetup env config =
     (if audioWeight config > 0
      then (case decodeAudioData env of
              Some buf \<Rightarrow> (Some buf, [AddLog Info DecodingAudioTrack, AddLog Success AudioTrackDecoded])
            | None \<Rightarrow> (None, [AddLog Info DecodingAudioTrack, AddLog Warn FailedToDecodeAudio]))
      else (None, []))"

record SamplingState =
  st_prevFrameData :: "frame option"
  st_combinedData :: "Sample list"
  st_runningSum :: real
  st_events :: "Event list"

text \<open>One iteration of the sampling loop at time \<open>t\<close>.\<close>

definition sampleStep ::
  "Env \<Rightarrow> AudioBuffer option \<Rightarrow> real \<Rightarrow> real \<Rightarrow> real \<Rightarrow> SamplingState \<Rightarrow> SamplingState" where
  "sampleStep env audioBuffer interval duration' t st =
     (case captureFrame (seekFrame env t) (st_prevFrameData st) of
        (vScore, variance) \<Rightarrow>
          (let audioScore = getAudioRMS audioBuffer t interval;
               cleanVScore = (if variance < 10 then 0 else vScore)
           in \<lparr>st_prevFrameData = Some (seekFrame env t),
               st_combinedData = st_combinedData st @
                 [\<lparr>time = t, val = 0, isSceneCut = False, raw_v = cleanVScore, raw_a = audioScore\<rparr>],
               st_runningSum = st_runningSum st + cleanVScore,
               st_events = st_events st @ [OnProgress (t / duration' * 100)]\<rparr>))"

text \<open>
  \<open>for (let t = 0; t < duration; t += interval)\<close>. With a step that is not positive the
  time never reaches the duration and the loop does not end: the result is \<open>None\<close>.
  The pause \<open>if (t % 1 < interval) await new Promise(r => setTimeout(r, 0))\<close> yields to the
  event loop and changes no data; it is left out.
  (For \<open>samplingRate = 0\<close> JavaScript's interval is an infinity, which the reals do not
  have; the run is modelled for sampling rates other than 0.)
\<close>

function samplingLoop ::
  "Env \<Rightarrow> AudioBuffer option \<Rightarrow> real \<Rightarrow> real \<Rightarrow> real \<Rightarrow> SamplingState \<Rightarrow> SamplingState option" where
  "samplingLoop env audioBuffer interval duration' t st =
     (if t < duration'
      then (if interval \<le> 0 then None
            else samplingLoop env audioBuffer interval duration' (t + interval)
                   (sampleStep env audioBuffer interval duration' t st))
      else Some st)"
  by pat_completeness auto
termination
proof (relation "measure (\<lambda>(env, audioBuffer, interval, duration', t, st).
                   nat \<lceil>(duration' - t) / interval\<rceil>)")
  show "wf (measure (\<lambda>(env :: Env, audioBuffer :: AudioBuffer option, interval :: real,
                       duration' :: real, t :: real, st :: SamplingState).
                   nat \<lceil>(duration' - t) / interval\<rceil>))"
    by simp
next
  fix env :: Env and audioBuffer :: "AudioBuffer option" and interval duration' t :: real
    and st :: SamplingState
  assume lt: "t < duration'" and pos: "\<not> interval \<le> 0"
  have eq: "(duration' - (t + interval)) / interval = (duration' - t) / interval - 1"
    using pos by (simp add: field_simps)
  have "0 < (duration' - t) / interval"
    using lt pos by simp
  then have "0 < \<lceil>(duration' - t) / interval\<rceil>"
    by simp
  then have "nat \<lceil>(duration' - (t + interval)) / interval\<rceil> < nat \<lceil>(duration' - t) / interval\<rceil>"
    unfolding eq by simp
  then show "((env, audioBuffer, interval, duration', t + interval,
               sampleStep env audioBuffer interval duration' t st),
              (env, audioBuffer, interval, duration', t, st))
             \<in> measure (\<lambda>(env, audioBuffer, interval, duration', t, st).
                   nat \<lceil>(duration' - t) / interval\<rceil>)"
    by simp
qed

declare samplingLoop.simps [simp del]

text \<open>Stages 1.1 to 4 on the collected samples.\<close>

definition detrendedOf :: "AnalysisConfig \<Rightarrow> Sample list \<Rightarrow> Sample list" where
  "detrendedOf config combinedData =
     detrendedData config (flagSceneCuts config combinedData (processedData config combinedData))"

definition peaksOf :: "AnalysisConfig \<Rightarrow> Sample list \<Rightarrow> Peak list" where
  "peaksOf config combinedData =
     findPeaks config (smoothedData config (detrendedOf config combinedData))"

definition loopsOf :: "AnalysisConfig \<Rightarrow> nat \<Rightarrow> Sample list \<Rightarrow> js_error + DetectedLoop list" where
  "loopsOf config now combinedData =
     (let detrended = detrendedOf config combinedData
      in case atomicLoops config detrended (peaksOf config combinedData) of
           Inl e \<Rightarrow> Inl e
         | Inr atomic \<Rightarrow> finalLoops config now detrended atomic)"

text \<open>5. Thumbnails, taken at the middle of each final unit.\<close>

definition withThumbs :: "Env \<Rightarrow> DetectedLoop list \<Rightarrow> DetectedLoop list" where
  "withThumbs env final =
     map (\<lambda>loop. loop\<lparr>thumbnail := Some (thumbnailAt env (startTime loop + duration loop * 0.5))\<rparr>)
       final"

text \<open>
  What follows the sampling loop inside the \<open>try\<close>: an exception raised there is caught,
  logged at error level, and the state goes back to \<open>READY\<close>.
\<close>

definition postProcessing :: "Env \<Rightarrow> AnalysisConfig \<Rightarrow> Sample list \<Rightarrow> Event list" where
  "postProcessing env config combinedData =
     (let detrended = detrendedOf config combinedData;
          shown = (if ignoreSteadyMotion config then [AddLog Info AppliedHighPassFilter] else [])
                    @ [OnMotionDataUpdate detrended]
      in case loopsOf config (dateNow env) combinedData of
           Inl e \<Rightarrow> shown @ [AddLog Error (AnalysisFailed e), SetAppState READY]
         | Inr final \<Rightarrow>
             (let resultLoopsWithThumbs = withThumbs env final
              in shown @ [OnLoopsDetected resultLoopsWithThumbs,
                          AddLog Success (AnalysisComplete (length resultLoopsWithThumbs)),
                          SetAppState READY]))"

definition initialState :: SamplingState where
  "initialState = \<lparr>st_prevFrameData = None, st_combinedData = [], st_runningSum = 0, st_events = []\<rparr>"

text \<open>\<open>startAnalysis\<close>: the events of one run, or \<open>None\<close> when the run does not end.\<close>

definition startAnalysis :: "Env \<Rightarrow> AnalysisConfig \<Rightarrow> Event list option" where
  "startAnalysis env config =
     (if \<not> refsReady env then Some []
      else (let started = [SetAppState ANALYZING,
                           AddLog Info (StartingHybridAnalysis (100 - audioWeight config)
                                          (audioWeight config) (samplingRate config))]
            in if \<not> context2d env
               then Some (started @ [AddLog Error CanvasContextFailed, SetAppState READY])
               else (case audioSetup env config of
                       (audioBuffer, decoding) \<Rightarrow>
                         (let fps = samplingRate config;
                              interval = 1 / fps;
                              duration' = videoDuration env
                          in case samplingLoop env audioBuffer interval duration' 0 initialState of
                               None \<Rightarrow> None
                             | Some st \<Rightarrow>
                                 Some (started @ decoding @ st_events st
                                       @ postProcessing env config (st_combinedData st))))))"

subsection \<open>The moving average in the specification's words\<close>

text \<open>
  The specification describes both filters as a moving average over a symmetric window
  of a given half-width, clamped to the bounds of the sequence: the mean of the values at
  the indices of the sequence whose distance to \<open>i\<close> is at most the half-width.
\<close>

definition windowIndices :: "nat \<Rightarrow> nat \<Rightarrow> int \<Rightarrow> nat list" where
  "windowIndices n i h = filter (\<lambda>j. \<bar>int j - int i\<bar> \<le> h) [0..<n]"

definition spec_movingAverage :: "real list \<Rightarrow> nat \<Rightarrow> int \<Rightarrow> real" where
  "spec_movingAverage vals i h =
     sum_list (map (\<lambda>j. vals ! j) (windowIndices (length vals) i h))
       / real (length (windowIndices (length vals) i h))"

subsection \<open>Example inputs\<close>

text \<open>A sample with a given time and value, and a sample with given raw scores.\<close>

definition sampleOf :: "real \<Rightarrow> real \<Rightarrow> Sample" where
  "sampleOf t v = \<lparr>time = t, val = v, isSceneCut = False, raw_v = 0, raw_a = 0\<rparr>"

definition rawSample :: "real \<Rightarrow> real \<Rightarrow> real \<Rightarrow> Sample" where
  "rawSample t v a = \<lparr>time = t, val = 0, isSceneCut = False, raw_v = v, raw_a = a\<rparr>"

definition ex_config :: AnalysisConfig where
  "ex_config = \<lparr>sensitivity = 10, minLoopDuration = 0.5, maxLoopDuration = 5, samplingRate = 2,
     smoothingWindow = 0, detectionMode = Sets, detectSceneChanges = True,
     ignoreSteadyMotion = False, audioWeight = 0\<rparr>"

definition ex_signal :: "Sample list" where
  "ex_signal = [sampleOf 0 0, sampleOf 0.5 6, sampleOf 1 15, sampleOf 1.5 3, sampleOf 2 9,
                sampleOf 2.5 30]"

definition ex_plateau :: "Sample list" where
  "ex_plateau = [sampleOf 0 0, sampleOf 0.5 20, sampleOf 1 20, sampleOf 1.5 0]"

definition ex_raw :: "Sample list" where
  "ex_raw = [rawSample 0 1 0, rawSample 0.5 1 2, rawSample 1 15 0, rawSample 1.5 2 2]"

definition ex_audio_config :: AnalysisConfig where
  "ex_audio_config = ex_config\<lparr>audioWeight := 20\<rparr>"

text \<open>
  A clip sampled twice a second whose visual score has a spike at index 2 (above six
  times the mean, so flagged as a scene cut) and a second, smaller bump at index 6.
\<close>

definition cut_config :: AnalysisConfig where
  "cut_config = \<lparr>sensitivity = 1, minLoopDuration = 0.5, maxLoopDuration = 5, samplingRate = 2,
     smoothingWindow = 1, detectionMode = Sets, detectSceneChanges = True,
     ignoreSteadyMotion = False, audioWeight = 0\<rparr>"

definition cut_raw :: "Sample list" where
  "cut_raw = [rawSample 0 0.1 0, rawSample 0.5 0.2 0, rawSample 1 10 0, rawSample 1.5 0.2 0,
              rawSample 2 0.1 0, rawSample 2.5 0.2 0, rawSample 3 3 0, rawSample 3.5 0.2 0,
              rawSample 4 0.1 0]"

text \<open>
  The same clip with the visual score 0 at the first sample, as every run has it: the
  first frame has no previous frame to differ from.
\<close>

definition still_start_raw :: "Sample list" where
  "still_start_raw = [rawSample 0 0 0, rawSample 0.5 0.2 0, rawSample 1 10 0, rawSample 1.5 0.2 0,
                      rawSample 2 0.1 0, rawSample 2.5 0.2 0, rawSample 3 3 0, rawSample 3.5 0.2 0,
                      rawSample 4 0.1 0]"

text \<open>
  Two peaks at \<open>t = 2.0\<close> and \<open>t = 3.0\<close> of a clip sampled twice a second (indices 4 and
  6), and a signal whose only flagged instant is the sample at \<open>t = 2.5\<close> (index 5).
\<close>

definition pair_peaks :: "Peak list" where
  "pair_peaks = [mkPeak (sampleOf 2.0 200) 4, mkPeak (sampleOf 3.0 180) 6]"

definition pair_signal :: "Sample list" where
  "pair_signal = [sampleOf 0 10, sampleOf 0.5 20, sampleOf 1 10, sampleOf 1.5 60, sampleOf 2.0 200,
                  (sampleOf 2.5 90)\<lparr>isSceneCut := True\<rparr>, sampleOf 3.0 180, sampleOf 3.5 20]"

text \<open>The same signal without the flag, and peaks exactly at the duration bounds.\<close>

definition plain_signal :: "Sample list" where
  "plain_signal = map (\<lambda>d. d\<lparr>isSceneCut := False\<rparr>) pair_signal"

definition bound_peaks :: "Peak list" where
  "bound_peaks = [mkPeak (sampleOf 0.5 200) 1, mkPeak (sampleOf 1.0 200) 2,
                  mkPeak (sampleOf 3.0 200) 6, mkPeak (sampleOf 3.5 200) 7]"

definition bound_config :: AnalysisConfig where
  "bound_config = cut_config\<lparr>minLoopDuration := 0.5, maxLoopDuration := 2\<rparr>"

text \<open>
  Six peaks of a clip sampled ten times a second, at the times 0, 1, 1.2, 2.1, 5.0 and
  5.9, and the three atomic loops \<open>[0, 1]\<close>, \<open>[1.2, 2.1]\<close>, \<open>[5.0, 5.9]\<close> they give when
  the duration bounds are 0.5 and 2 and the scene-cut detection is off.
\<close>

definition sets_config :: AnalysisConfig where
  "sets_config = \<lparr>sensitivity = 40, minLoopDuration = 0.5, maxLoopDuration = 2, samplingRate = 10,
     smoothingWindow = 2, detectionMode = Sets, detectSceneChanges = False,
     ignoreSteadyMotion = True, audioWeight = 20\<rparr>"

definition sets_peaks :: "Peak list" where
  "sets_peaks = [mkPeak (sampleOf 0 40) 0, mkPeak (sampleOf 1 40) 10, mkPeak (sampleOf 1.2 40) 12,
                 mkPeak (sampleOf 2.1 40) 21, mkPeak (sampleOf 5.0 40) 50, mkPeak (sampleOf 5.9 40) 59]"

definition sets_loops :: "DetectedLoop list" where
  "sets_loops = [atomOf 0 (sets_peaks ! 0) (sets_peaks ! 1), atomOf 2 (sets_peaks ! 2) (sets_peaks ! 3),
                 atomOf 4 (sets_peaks ! 4) (sets_peaks ! 5)]"

subsection \<open>Reading a run\<close>

text \<open>The progress values a run reports, in the order of the calls.\<close>

definition progressOf :: "Event list \<Rightarrow> real list" where
  "progressOf events = concat (map (\<lambda>e. case e of OnProgress p \<Rightarrow> [p] | _ \<Rightarrow> []) events)"

text \<open>
  A one-second clip of black one-pixel frames, sampled twice a second, whose audio track
  does not decode.
\<close>

definition run_env :: Env where
  "run_env = \<lparr>refsReady = True, context2d = True, decodeAudioData = None, videoDuration = 1,
     seekFrame = (\<lambda>t. [(0, 0, 0, 255)]), thumbnailAt = (\<lambda>t. []), dateNow = 0\<rparr>"

section \<open>Properties\<close>

subsection \<open>Folds and the moving average\<close>

lemma foldl_plus_sum_list:
  fixes a :: "'b::comm_monoid_add"
  shows "foldl (\<lambda>acc d. acc + f d) a xs = a + sum_list (map f xs)"
  by (induction xs arbitrary: a) (simp_all add: add.assoc)

lemma foldl_window_pair:
  "foldl (\<lambda>(s, c) j. (s + f j, Suc c)) (a, n) js = (a + sum_list (map f js), n + length js)"
  by (induction js arbitrary: a n) (simp_all add: add.assoc)

lemma windowLoop_eq:
  "windowLoop arr i w =
     (sum_list (map (\<lambda>j. val (arr ! nat j)) [max 0 (int i - w) .. min (int (length arr) - 1) (int i + w)]),
      length [max 0 (int i - w) .. min (int (length arr) - 1) (int i + w)])"
  unfolding windowLoop_def by (simp add: foldl_window_pair del: length_upto)

lemma map_nat_upto_eq_filter:
  assumes "0 \<le> lo" and that: "hi < int n"
  shows "map nat [lo..hi] = filter (\<lambda>j. lo \<le> int j \<and> int j \<le> hi) [0..<n]"
proof (rule sorted_distinct_set_unique)
  show "sorted (map nat [lo..hi])"
  proof -
    have "sorted_wrt (\<lambda>x y. nat x \<le> nat y) [lo..hi]"
      by (rule sorted_wrt_mono_rel [of _ "(\<le>)"]) simp_all
    then show ?thesis by (simp add: sorted_map)
  qed
  show "distinct (map nat [lo..hi])"
    using assms by (auto simp: distinct_map inj_on_def)
  show "sorted (filter (\<lambda>j. lo \<le> int j \<and> int j \<le> hi) [0..<n])"
    by (simp add: sorted_wrt_filter)
  show "distinct (filter (\<lambda>j. lo \<le> int j \<and> int j \<le> hi) [0..<n])"
    by simp
  show "set (map nat [lo..hi]) = set (filter (\<lambda>j. lo \<le> int j \<and> int j \<le> hi) [0..<n])"
  proof -
    have "nat ` {lo..hi} = {j. lo \<le> int j \<and> int j \<le> hi}"
    proof (intro set_eqI iffI)
      fix x assume "x \<in> nat ` {lo..hi}"
      then show "x \<in> {j. lo \<le> int j \<and> int j \<le> hi}" using assms by auto
    next
      fix x assume "x \<in> {j. lo \<le> int j \<and> int j \<le> hi}"
      then have "int x \<in> {lo..hi}" by simp
      then have "nat (int x) \<in> nat ` {lo..hi}" by (rule imageI)
      then show "x \<in> nat ` {lo..hi}" by simp
    qed
    then show ?thesis using that by auto
  qed
qed

lemma window_indices_eq:
  assumes "i < n"
  shows "map nat [max 0 (int i - w) .. min (int n - 1) (int i + w)] = windowIndices n i w"
proof -
  have "map nat [max 0 (int i - w) .. min (int n - 1) (int i + w)]
        = filter (\<lambda>j. max 0 (int i - w) \<le> int j \<and> int j \<le> min (int n - 1) (int i + w)) [0..<n]"
    by (rule map_nat_upto_eq_filter) simp_all
  also have "\<dots> = windowIndices n i w"
    unfolding windowIndices_def by (rule filter_cong) auto
  finally show ?thesis .
qed

lemma windowMean_spec:
  assumes "i < length arr"
  shows "windowMean arr i w = spec_movingAverage (map val arr) i w"
proof -
  let ?js = "[max 0 (int i - w) .. min (int (length arr) - 1) (int i + w)]"
  have idx: "map nat ?js = windowIndices (length arr) i w"
    using assms by (rule window_indices_eq)
  have in_range: "\<forall>j \<in> set (windowIndices (length arr) i w). j < length arr"
    by (simp add: windowIndices_def)
  have "sum_list (map (\<lambda>j. val (arr ! nat j)) ?js) = sum_list (map (\<lambda>j. val (arr ! j)) (map nat ?js))"
    by (simp add: comp_def)
  also have "\<dots> = sum_list (map (\<lambda>j. map val arr ! j) (windowIndices (length arr) i w))"
    unfolding idx using in_range by (intro arg_cong [where f = sum_list] map_cong) simp_all
  finally have s: "sum_list (map (\<lambda>j. val (arr ! nat j)) ?js)
                   = sum_list (map (\<lambda>j. map val arr ! j) (windowIndices (length arr) i w))" .
  have "length ?js = length (map nat ?js)" by (simp del: length_upto)
  then have c: "length ?js = length (windowIndices (length arr) i w)" unfolding idx .
  show ?thesis
    unfolding windowMean_def windowLoop_eq spec_movingAverage_def using s c by (simp del: length_upto)
qed

lemma length_map_indexed [simp]: "length (map_indexed f arr) = length arr"
  by (simp add: map_indexed_def)

lemma nth_map_indexed: "i < length arr \<Longrightarrow> map_indexed f arr ! i = f (arr ! i) i arr"
  by (simp add: map_indexed_def)

subsection \<open>Smoothing half-width\<close>

text \<open>
  C10. The smoothing stage replaces each value by the moving average of half-width
  \<open>smoothingWindow\<close>, except that a configured \<open>smoothingWindow = 0\<close> gives the
  half-width 2: zero does not switch the smoothing off. Every other configured value is
  used as it is.
\<close>

theorem C10_zero_window_is_two:
  assumes "i < length detrended"
  shows "val (smoothedData config detrended ! i) =
           spec_movingAverage (map val detrended) i
             (if smoothingWindow config = 0 then 2 else smoothingWindow config)"
  using assms
  by (simp add: smoothedData_def nth_map_indexed windowSize_def js_or_def windowMean_spec)

theorem C10_zero_window_is_two_witness:
  "(2::nat) < length ex_signal \<and> smoothingWindow ex_config = 0
   \<and> val (smoothedData ex_config ex_signal ! 2) = spec_movingAverage (map val ex_signal) 2 2
   \<and> spec_movingAverage (map val ex_signal) 2 2 = (0 + 6 + 15 + 3 + 9) / 5
   \<and> spec_movingAverage (map val ex_signal) 2 0 = 15"
  using C10_zero_window_is_two [of 2 ex_signal ex_config]
  by (simp add: ex_signal_def ex_config_def sampleOf_def spec_movingAverage_def windowIndices_def)

subsection \<open>Peak detection\<close>

lemma foldl_push_filter:
  "foldl (\<lambda>acc i. if P i then acc @ [f i] else acc) acc is = acc @ map f (filter P is)"
  by (induction "is" arbitrary: acc) simp_all

lemma findPeaks_eq:
  "findPeaks config smoothed =
     map (\<lambda>i. mkPeak (smoothed ! i) i) (filter (isPeakAt config smoothed) [1..<length smoothed - 1])"
  unfolding findPeaks_def by (simp add: foldl_push_filter)

lemma index_mkPeak [simp]: "index (mkPeak s i) = i"
  by (simp add: mkPeak_def)

lemma time_mkPeak [simp]: "time (mkPeak s i) = time s"
  by (simp add: mkPeak_def)

lemma val_mkPeak [simp]: "val (mkPeak s i) = val s"
  by (simp add: mkPeak_def)

lemma avgEnergy_eq: "avgEnergy smoothed = sum_list (map val smoothed) / real (length smoothed)"
  by (simp add: avgEnergy_def foldl_plus_sum_list)

lemma peak_index_iff:
  "(\<exists>p \<in> set (findPeaks config smoothed). index p = i)
     \<longleftrightarrow> 0 < i \<and> i + 1 < length smoothed \<and> isPeakAt config smoothed i"
  by (auto simp: findPeaks_eq)

text \<open>
  C4. An index is registered as a peak exactly when it is strictly interior, its smoothed
  value is strictly above both neighbours and strictly above the peak threshold, the mean
  of the smoothed values times \<open>1 + sensitivity / 50\<close>. Two equal neighbouring values
  (a flat top) give no peak at either index.
\<close>

theorem C4_peak_rule:
  "((\<exists>p \<in> set (findPeaks config smoothed). index p = i) \<longleftrightarrow>
      (0 < i \<and> i + 1 < length smoothed
       \<and> val (smoothed ! i) > val (smoothed ! (i - 1))
       \<and> val (smoothed ! i) > val (smoothed ! (i + 1))
       \<and> val (smoothed ! i) >
           sum_list (map val smoothed) / real (length smoothed) * (1 + sensitivity config / 50)))
   \<and> (val (smoothed ! i) = val (smoothed ! (i + 1)) \<longrightarrow>
        \<not> (\<exists>p \<in> set (findPeaks config smoothed). index p = i \<or> index p = i + 1))"
proof -
  have iff: "(\<exists>p \<in> set (findPeaks config smoothed). index p = j) \<longleftrightarrow>
      (0 < j \<and> j + 1 < length smoothed
       \<and> val (smoothed ! j) > val (smoothed ! (j - 1))
       \<and> val (smoothed ! j) > val (smoothed ! (j + 1))
       \<and> val (smoothed ! j) >
           sum_list (map val smoothed) / real (length smoothed) * (1 + sensitivity config / 50))"
    for j
    unfolding peak_index_iff by (simp add: isPeakAt_def peakThreshold_def avgEnergy_eq Let_def)
  have plateau: "\<not> (\<exists>p \<in> set (findPeaks config smoothed). index p = i \<or> index p = i + 1)"
    if eq: "val (smoothed ! i) = val (smoothed ! (i + 1))"
  proof
    assume "\<exists>p \<in> set (findPeaks config smoothed). index p = i \<or> index p = i + 1"
    then have "(\<exists>p \<in> set (findPeaks config smoothed). index p = i)
               \<or> (\<exists>p \<in> set (findPeaks config smoothed). index p = i + 1)"
      by blast
    then show False
      unfolding iff using eq by auto
  qed
  from iff [of i] plateau show ?thesis by blast
qed

theorem C4_peak_rule_witness:
  "(\<exists>p \<in> set (findPeaks ex_config ex_signal). index p = 2)
   \<and> val (ex_signal ! 2) > sum_list (map val ex_signal) / real (length ex_signal) * (1 + sensitivity ex_config / 50)
   \<and> val (ex_plateau ! 1) = val (ex_plateau ! (1 + 1))
   \<and> \<not> (\<exists>p \<in> set (findPeaks ex_config ex_plateau). index p = 1 \<or> index p = 1 + 1)"
  using C4_peak_rule [of ex_config ex_signal 2] C4_peak_rule [of ex_config ex_plateau 1]
  by (simp add: ex_signal_def ex_plateau_def ex_config_def sampleOf_def)

lemma findPeaks_example: "map index (findPeaks ex_config ex_signal) = [2]"
  by (simp add: findPeaks_eq isPeakAt_def peakThreshold_def avgEnergy_eq ex_signal_def ex_config_def sampleOf_def)

subsection \<open>Values are not negative\<close>

lemma length_processedData [simp]: "length (processedData config combinedData) = length combinedData"
  by (simp add: processedData_def)

lemma length_flagSceneCuts [simp]: "length (flagSceneCuts config combinedData processed) = length processed"
  by (simp add: flagSceneCuts_def)

lemma length_detrendedData [simp]: "length (detrendedData config processed) = length processed"
  by (simp add: detrendedData_def Let_def)

lemma length_detrendedOf [simp]: "length (detrendedOf config combinedData) = length combinedData"
  by (simp add: detrendedOf_def)

lemma length_smoothedData [simp]: "length (smoothedData config detrended) = length detrended"
  by (simp add: smoothedData_def)

lemma js_or_pos:
  fixes q :: real
  shows "0 \<le> q \<Longrightarrow> 0 < js_or q 1"
  by (simp add: js_or_def)

lemma js_or_mean_pos:
  fixes xs :: "real list"
  assumes "\<forall>x \<in> set xs. 0 \<le> x"
  shows "0 < js_or (sum_list xs / real (length xs)) 1"
proof (rule js_or_pos)
  have "0 \<le> sum_list xs" using assms by (simp add: sum_list_nonneg)
  then show "0 \<le> sum_list xs / real (length xs)" by simp
qed

lemma avgV_pos: "\<forall>d \<in> set combinedData. 0 \<le> raw_v d \<Longrightarrow> 0 < avgV combinedData"
  unfolding avgV_def foldl_plus_sum_list using js_or_mean_pos [of "map raw_v combinedData"] by simp

lemma avgA_pos: "\<forall>d \<in> set combinedData. 0 \<le> raw_a d \<Longrightarrow> 0 < avgA combinedData"
  unfolding avgA_def foldl_plus_sum_list using js_or_mean_pos [of "map raw_a combinedData"] by simp

lemma normV_bounds:
  assumes "\<forall>d \<in> set combinedData. 0 \<le> raw_v d" and "0 \<le> raw_v d"
  shows "0 \<le> normV combinedData d \<and> normV combinedData d \<le> 1"
  using avgV_pos [OF assms(1)] assms(2) by (simp add: normV_def)

lemma normA_bounds:
  assumes "\<forall>d \<in> set combinedData. 0 \<le> raw_a d" and "0 \<le> raw_a d"
  shows "0 \<le> normA combinedData d \<and> normA combinedData d \<le> 1"
  using avgA_pos [OF assms(1)] assms(2) by (simp add: normA_def)

lemma convex_unit_bounds:
  fixes x y w :: real
  assumes "0 \<le> x" "x \<le> 1" "0 \<le> y" "y \<le> 1" "0 \<le> w" "w \<le> 1"
  shows "0 \<le> x * (1 - w) + y * w" and "x * (1 - w) + y * w \<le> 1"
proof -
  show "0 \<le> x * (1 - w) + y * w"
    using assms by (intro add_nonneg_nonneg mult_nonneg_nonneg) simp_all
  have "x * (1 - w) \<le> 1 * (1 - w)" using assms by (intro mult_right_mono) simp_all
  moreover have "y * w \<le> 1 * w" using assms by (intro mult_right_mono) simp_all
  ultimately show "x * (1 - w) + y * w \<le> 1" by simp
qed

lemma fusedValue_bounds:
  assumes "\<forall>d \<in> set combinedData. 0 \<le> raw_v d \<and> 0 \<le> raw_a d"
    and "0 \<le> raw_v d" "0 \<le> raw_a d"
    and "0 \<le> audioWeight config" "audioWeight config \<le> 100"
  shows "0 \<le> fusedValue config combinedData d \<and> fusedValue config combinedData d \<le> 1"
proof -
  have v: "0 \<le> normV combinedData d \<and> normV combinedData d \<le> 1"
    using assms by (intro normV_bounds) simp_all
  have a: "0 \<le> normA combinedData d \<and> normA combinedData d \<le> 1"
    using assms by (intro normA_bounds) simp_all
  have w: "0 \<le> audioWeight config / 100" "audioWeight config / 100 \<le> 1"
    using assms by simp_all
  show ?thesis
    unfolding fusedValue_def Let_def
    using convex_unit_bounds [of "normV combinedData d" "normA combinedData d" "audioWeight config / 100"] v a w
    by simp
qed

text \<open>
  C6. When the raw scores are not negative, as the scorers produce them, both normalised
  components of every instant lie in \<open>[0, 1]\<close> whatever the size of the raw scores, and
  with an audio weight between 0 and 100 every fused value is
  \<open>(normV * wV + normA * wA) * 255\<close> with \<open>wA = audioWeight / 100\<close>, \<open>wV = 1 - wA\<close>, and lies
  in \<open>[0, 255]\<close>.
\<close>

theorem C6_normalisation_bounded:
  assumes "\<forall>d \<in> set combinedData. 0 \<le> raw_v d \<and> 0 \<le> raw_a d"
    and "0 \<le> audioWeight config" and "audioWeight config \<le> 100"
    and "i < length combinedData"
  shows "0 \<le> normV combinedData (combinedData ! i) \<and> normV combinedData (combinedData ! i) \<le> 1
         \<and> 0 \<le> normA combinedData (combinedData ! i) \<and> normA combinedData (combinedData ! i) \<le> 1
         \<and> val (processedData config combinedData ! i) =
             (normV combinedData (combinedData ! i) * (1 - audioWeight config / 100)
              + normA combinedData (combinedData ! i) * (audioWeight config / 100)) * 255
         \<and> 0 \<le> val (processedData config combinedData ! i)
         \<and> val (processedData config combinedData ! i) \<le> 255"
proof -
  let ?d = "combinedData ! i"
  have mem: "?d \<in> set combinedData" using assms(4) by simp
  then have nn: "0 \<le> raw_v ?d" "0 \<le> raw_a ?d" using assms(1) by simp_all
  have v: "0 \<le> normV combinedData ?d \<and> normV combinedData ?d \<le> 1"
    using assms(1) nn by (intro normV_bounds) simp_all
  have a: "0 \<le> normA combinedData ?d \<and> normA combinedData ?d \<le> 1"
    using assms(1) nn by (intro normA_bounds) simp_all
  have f: "0 \<le> fusedValue config combinedData ?d \<and> fusedValue config combinedData ?d \<le> 1"
    using assms nn by (intro fusedValue_bounds) simp_all
  have eq: "val (processedData config combinedData ! i) = fusedValue config combinedData ?d * 255"
    using assms(4) by (simp add: processedData_def)
  have eq': "fusedValue config combinedData ?d =
             normV combinedData ?d * (1 - audioWeight config / 100)
              + normA combinedData ?d * (audioWeight config / 100)"
    by (simp add: fusedValue_def Let_def)
  have c3: "val (processedData config combinedData ! i) =
             (normV combinedData ?d * (1 - audioWeight config / 100)
              + normA combinedData ?d * (audioWeight config / 100)) * 255"
    unfolding eq eq' ..
  have c4: "0 \<le> val (processedData config combinedData ! i)"
    unfolding eq using f by simp
  have c5: "val (processedData config combinedData ! i) \<le> 255"
    unfolding eq using f by simp
  show ?thesis
    using v a c3 c4 c5 by blast
qed

theorem C6_normalisation_bounded_witness:
  "list_all (\<lambda>d. 0 \<le> raw_v d \<and> 0 \<le> raw_a d) ex_raw
   \<and> 0 \<le> audioWeight ex_audio_config \<and> audioWeight ex_audio_config \<le> 100
   \<and> 2 < length ex_raw
   \<and> raw_v (ex_raw ! 2) = 15
   \<and> normV ex_raw (ex_raw ! 2) = 1 \<and> normA ex_raw (ex_raw ! 2) = 0
   \<and> val (processedData ex_audio_config ex_raw ! 2) = 204
   \<and> 0 \<le> val (processedData ex_audio_config ex_raw ! 2)
   \<and> val (processedData ex_audio_config ex_raw ! 2) \<le> 255"
  using C6_normalisation_bounded [of ex_raw ex_audio_config 2]
  by (simp add: ex_raw_def ex_audio_config_def ex_config_def rawSample_def normV_def normA_def
        avgV_def avgA_def js_or_def)

subsection \<open>Sensitivity and the number of peaks\<close>

lemmas pipeline_eval =
  peaksOf_def detrendedOf_def detrendedData_def flagSceneCuts_def processedData_def
  sceneCutThreshold_def fusedValue_def normV_def normA_def avgV_def avgA_def js_or_def
  smoothedData_def map_indexed_def windowMean_def windowLoop_def windowSize_def upto.simps
  findPeaks_def isPeakAt_def peakThreshold_def avgEnergy_def mkPeak_def

lemma val_flagSceneCuts [simp]:
  "map val (flagSceneCuts config combinedData processed) = map val processed"
  by (simp add: flagSceneCuts_def)

lemma processedData_val_nonneg:
  assumes "\<forall>d \<in> set combinedData. 0 \<le> raw_v d \<and> 0 \<le> raw_a d"
    and "0 \<le> audioWeight config" and "audioWeight config \<le> 100"
  shows "\<forall>x \<in> set (map val (processedData config combinedData)). 0 \<le> x"
proof -
  have "0 \<le> fusedValue config combinedData d * 255" if "d \<in> set combinedData" for d
  proof -
    have "0 \<le> fusedValue config combinedData d \<and> fusedValue config combinedData d \<le> 1"
      using assms that by (intro fusedValue_bounds) simp_all
    then show ?thesis by simp
  qed
  then show ?thesis by (simp add: processedData_def)
qed

lemma detrendedData_val_nonneg:
  assumes "\<forall>x \<in> set (map val processed). 0 \<le> x"
  shows "\<forall>x \<in> set (map val (detrendedData config processed)). 0 \<le> x"
  using assms by (auto simp: detrendedData_def map_indexed_def Let_def)

lemma detrendedOf_val_nonneg:
  assumes "\<forall>d \<in> set combinedData. 0 \<le> raw_v d \<and> 0 \<le> raw_a d"
    and "0 \<le> audioWeight config" and "audioWeight config \<le> 100"
  shows "\<forall>x \<in> set (map val (detrendedOf config combinedData)). 0 \<le> x"
  unfolding detrendedOf_def
proof (rule detrendedData_val_nonneg)
  have "\<forall>x \<in> set (map val (processedData config combinedData)). 0 \<le> x"
    using assms by (rule processedData_val_nonneg)
  then show "\<forall>x\<in>set (map val (flagSceneCuts config combinedData (processedData config combinedData))). 0 \<le> x"
    by (simp only: val_flagSceneCuts)
qed

lemma windowMean_nonneg:
  assumes "\<forall>x \<in> set (map val arr). 0 \<le> x"
  shows "0 \<le> windowMean arr i w"
proof -
  let ?js = "[max 0 (int i - w) .. min (int (length arr) - 1) (int i + w)]"
  have "0 \<le> val (arr ! nat j)" if "j \<in> set ?js" for j
  proof -
    from that have "0 \<le> j" "j < int (length arr)" by auto
    then have "nat j < length arr" by simp
    then have "arr ! nat j \<in> set arr" by simp
    then show ?thesis using assms by simp
  qed
  then have "0 \<le> sum_list (map (\<lambda>j. val (arr ! nat j)) ?js)"
    by (intro sum_list_nonneg) auto
  then show ?thesis
    unfolding windowMean_def windowLoop_eq by (simp del: length_upto)
qed

lemma smoothedData_val_nonneg:
  assumes "\<forall>x \<in> set (map val detrended). 0 \<le> x"
  shows "\<forall>x \<in> set (map val (smoothedData config detrended)). 0 \<le> x"
  using windowMean_nonneg [OF assms] by (auto simp: smoothedData_def map_indexed_def)

lemma avgEnergy_nonneg:
  assumes "\<forall>x \<in> set (map val smoothed). 0 \<le> x"
  shows "0 \<le> avgEnergy smoothed"
proof -
  have "0 \<le> sum_list (map val smoothed)" using assms by (intro sum_list_nonneg) auto
  then show ?thesis by (simp add: avgEnergy_eq)
qed

lemma peakThreshold_mono:
  assumes "0 \<le> avgEnergy smoothed" and "s1 \<le> s2"
  shows "peakThreshold (config\<lparr>sensitivity := s1\<rparr>) smoothed
           \<le> peakThreshold (config\<lparr>sensitivity := s2\<rparr>) smoothed"
  using assms by (simp add: peakThreshold_def mult_left_mono)

lemma isPeakAt_antimono:
  assumes "0 \<le> avgEnergy smoothed" and "s1 \<le> s2"
    and "isPeakAt (config\<lparr>sensitivity := s2\<rparr>) smoothed i"
  shows "isPeakAt (config\<lparr>sensitivity := s1\<rparr>) smoothed i"
  using peakThreshold_mono [OF assms(1,2), of config] assms(3)
  by (simp add: isPeakAt_def Let_def)

lemma length_filter_mono:
  "(\<And>x. x \<in> set xs \<Longrightarrow> P x \<Longrightarrow> Q x) \<Longrightarrow> length (filter P xs) \<le> length (filter Q xs)"
  by (induction xs) auto

lemma findPeaks_antimono:
  assumes "0 \<le> avgEnergy smoothed" and "s1 \<le> s2"
  shows "set (findPeaks (config\<lparr>sensitivity := s2\<rparr>) smoothed)
           \<subseteq> set (findPeaks (config\<lparr>sensitivity := s1\<rparr>) smoothed)"
    and "length (findPeaks (config\<lparr>sensitivity := s2\<rparr>) smoothed)
           \<le> length (findPeaks (config\<lparr>sensitivity := s1\<rparr>) smoothed)"
proof -
  show "set (findPeaks (config\<lparr>sensitivity := s2\<rparr>) smoothed)
           \<subseteq> set (findPeaks (config\<lparr>sensitivity := s1\<rparr>) smoothed)"
    using isPeakAt_antimono [OF assms] by (auto simp: findPeaks_eq)
  show "length (findPeaks (config\<lparr>sensitivity := s2\<rparr>) smoothed)
           \<le> length (findPeaks (config\<lparr>sensitivity := s1\<rparr>) smoothed)"
    unfolding findPeaks_eq length_map
    using isPeakAt_antimono [OF assms] by (intro length_filter_mono)
qed

lemma smoothed_sensitivity [simp]:
  "smoothedData (config\<lparr>sensitivity := s\<rparr>) (detrendedOf (config\<lparr>sensitivity := s\<rparr>) combinedData)
     = smoothedData config (detrendedOf config combinedData)"
  by (simp add: smoothedData_def detrendedOf_def detrendedData_def flagSceneCuts_def
        processedData_def fusedValue_def windowSize_def)

text \<open>
  C5. With raw scores that are not negative and an audio weight between 0 and 100, a
  larger sensitivity gives a peak threshold at least as large, and the peaks detected at
  the larger sensitivity are among those detected at the smaller one: their number does
  not grow.
\<close>

theorem C5_sensitivity_antitone:
  assumes "\<forall>d \<in> set combinedData. 0 \<le> raw_v d \<and> 0 \<le> raw_a d"
    and "0 \<le> audioWeight config" and "audioWeight config \<le> 100"
    and "s1 \<le> s2"
  shows "set (peaksOf (config\<lparr>sensitivity := s2\<rparr>) combinedData)
           \<subseteq> set (peaksOf (config\<lparr>sensitivity := s1\<rparr>) combinedData)
         \<and> length (peaksOf (config\<lparr>sensitivity := s2\<rparr>) combinedData)
           \<le> length (peaksOf (config\<lparr>sensitivity := s1\<rparr>) combinedData)
         \<and> peakThreshold (config\<lparr>sensitivity := s1\<rparr>)
               (smoothedData config (detrendedOf config combinedData))
           \<le> peakThreshold (config\<lparr>sensitivity := s2\<rparr>)
               (smoothedData config (detrendedOf config combinedData))"
proof -
  let ?sm = "smoothedData config (detrendedOf config combinedData)"
  have "\<forall>x \<in> set (map val (detrendedOf config combinedData)). 0 \<le> x"
    using assms(1-3) by (rule detrendedOf_val_nonneg)
  then have "\<forall>x \<in> set (map val ?sm). 0 \<le> x"
    by (rule smoothedData_val_nonneg)
  then have e: "0 \<le> avgEnergy ?sm"
    by (rule avgEnergy_nonneg)
  have p: "peaksOf (config\<lparr>sensitivity := s\<rparr>) combinedData = findPeaks (config\<lparr>sensitivity := s\<rparr>) ?sm"
    for s
    unfolding peaksOf_def by (simp only: smoothed_sensitivity)
  show ?thesis
    unfolding p
    using findPeaks_antimono [OF e assms(4), of config] peakThreshold_mono [OF e assms(4), of config]
    by blast
qed

theorem C5_sensitivity_antitone_witness:
  "list_all (\<lambda>d. 0 \<le> raw_v d \<and> 0 \<le> raw_a d) cut_raw
   \<and> 0 \<le> audioWeight cut_config \<and> audioWeight cut_config \<le> 100 \<and> (1::real) \<le> 100
   \<and> set (peaksOf (cut_config\<lparr>sensitivity := 100\<rparr>) cut_raw)
        \<subseteq> set (peaksOf (cut_config\<lparr>sensitivity := 1\<rparr>) cut_raw)
   \<and> map index (peaksOf (cut_config\<lparr>sensitivity := 1\<rparr>) cut_raw) = [2, 6]
   \<and> peaksOf (cut_config\<lparr>sensitivity := 100\<rparr>) cut_raw = []"
  using C5_sensitivity_antitone [of cut_raw cut_config 1 100]
  by (simp add: pipeline_eval cut_config_def cut_raw_def rawSample_def)

subsection \<open>Atomic loops\<close>

lemma hasCutScan_eq:
  "\<forall>k \<in> set ks. k < length detrended \<Longrightarrow>
     hasCutScan detrended ks = Inr (\<exists>k \<in> set ks. isSceneCut (detrended ! k))"
  by (induction ks) (simp_all add: js_nth_def)

lemma hasCut_eq:
  assumes "detectSceneChanges config \<longrightarrow> index endPeak \<le> length detrended"
  shows "hasCut config detrended startPeak endPeak =
           Inr (detectSceneChanges config
                \<and> (\<exists>k. index startPeak \<le> k \<and> k < index endPeak \<and> isSceneCut (detrended ! k)))"
proof (cases "detectSceneChanges config")
  case True
  with assms have "\<forall>k \<in> set [index startPeak..<index endPeak]. k < length detrended"
    by simp
  then have "hasCutScan detrended [index startPeak..<index endPeak]
             = Inr (\<exists>k \<in> set [index startPeak..<index endPeak]. isSceneCut (detrended ! k))"
    by (rule hasCutScan_eq)
  with True show ?thesis by (auto simp: hasCut_def)
next
  case False
  then show ?thesis by (simp add: hasCut_def)
qed

lemma atomicLoop_eq:
  assumes "\<forall>i \<in> set is. hasCut config detrended (peaks ! i) (peaks ! (i + 1)) = Inr (cutAt i)"
  shows "atomicLoop config detrended peaks is acc =
           Inr (acc @ map (\<lambda>i. atomOf i (peaks ! i) (peaks ! (i + 1)))
                        (filter (\<lambda>i. \<not> cutAt i
                                   \<and> minLoopDuration config \<le> time (peaks ! (i + 1)) - time (peaks ! i)
                                   \<and> time (peaks ! (i + 1)) - time (peaks ! i) \<le> maxLoopDuration config)
                           is))"
  using assms
proof (induction "is" arbitrary: acc)
  case Nil
  then show ?case by simp
next
  case (Cons i "is")
  then show ?case by (simp add: atomicStep_def Let_def)
qed

lemma loop_id_atomOf [simp]: "loop_id (atomOf i startPeak endPeak) = AtomId i"
  by (simp add: atomOf_def Let_def)

lemma atomicLoops_eq:
  assumes "detectSceneChanges config \<longrightarrow> (\<forall>p \<in> set peaks. index p \<le> length detrended)"
  shows "atomicLoops config detrended peaks =
           Inr (map (\<lambda>i. atomOf i (peaks ! i) (peaks ! (i + 1)))
                  (filter (\<lambda>i. \<not> (detectSceneChanges config
                                    \<and> (\<exists>k. index (peaks ! i) \<le> k \<and> k < index (peaks ! (i + 1))
                                            \<and> isSceneCut (detrended ! k)))
                               \<and> minLoopDuration config \<le> time (peaks ! (i + 1)) - time (peaks ! i)
                               \<and> time (peaks ! (i + 1)) - time (peaks ! i) \<le> maxLoopDuration config)
                     [0..<length peaks - 1]))"
proof -
  have "\<forall>i \<in> set [0..<length peaks - 1].
          hasCut config detrended (peaks ! i) (peaks ! (i + 1)) =
            Inr (detectSceneChanges config
                 \<and> (\<exists>k. index (peaks ! i) \<le> k \<and> k < index (peaks ! (i + 1))
                         \<and> isSceneCut (detrended ! k)))"
  proof
    fix i assume "i \<in> set [0..<length peaks - 1]"
    then have "i + 1 < length peaks" by auto
    then have "peaks ! (i + 1) \<in> set peaks" by (rule nth_mem)
    with assms have "detectSceneChanges config \<longrightarrow> index (peaks ! (i + 1)) \<le> length detrended"
      by blast
    then show "hasCut config detrended (peaks ! i) (peaks ! (i + 1)) =
            Inr (detectSceneChanges config
                 \<and> (\<exists>k. index (peaks ! i) \<le> k \<and> k < index (peaks ! (i + 1))
                         \<and> isSceneCut (detrended ! k)))"
      by (rule hasCut_eq)
  qed
  from atomicLoop_eq [OF this, of "[]"] show ?thesis
    unfolding atomicLoops_def by simp
qed

lemma atom_emitted_iff:
  assumes "detectSceneChanges config \<longrightarrow> (\<forall>p \<in> set peaks. index p \<le> length detrended)"
    and "i + 1 < length peaks"
    and "atomicLoops config detrended peaks = Inr loops"
  shows "(\<exists>l \<in> set loops. loop_id l = AtomId i) \<longleftrightarrow>
           \<not> (detectSceneChanges config
               \<and> (\<exists>k. index (peaks ! i) \<le> k \<and> k < index (peaks ! (i + 1))
                       \<and> isSceneCut (detrended ! k)))
           \<and> minLoopDuration config \<le> time (peaks ! (i + 1)) - time (peaks ! i)
           \<and> time (peaks ! (i + 1)) - time (peaks ! i) \<le> maxLoopDuration config"
proof -
  from assms(3) atomicLoops_eq [OF assms(1)]
  have loops: "loops = map (\<lambda>i. atomOf i (peaks ! i) (peaks ! (i + 1)))
                  (filter (\<lambda>i. \<not> (detectSceneChanges config
                                    \<and> (\<exists>k. index (peaks ! i) \<le> k \<and> k < index (peaks ! (i + 1))
                                            \<and> isSceneCut (detrended ! k)))
                               \<and> minLoopDuration config \<le> time (peaks ! (i + 1)) - time (peaks ! i)
                               \<and> time (peaks ! (i + 1)) - time (peaks ! i) \<le> maxLoopDuration config)
                     [0..<length peaks - 1])"
    by simp
  have "i \<in> set [0..<length peaks - 1]" using assms(2) by auto
  then show ?thesis unfolding loops by auto
qed

text \<open>
  C7, as the code has it. Where the detection is off, or no instant from the first
  peak's index (that index included) up to, not including, the second peak's index is
  flagged, a pair of consecutive peaks gives an atomic loop exactly when its duration
  lies between \<open>minLoopDuration\<close> and \<open>maxLoopDuration\<close>, both bounds included. A flag at
  the first peak's own index is in the way, although it is not between the peaks.
\<close>

theorem C7_duration_bounds_inclusive:
  assumes "detectSceneChanges config \<longrightarrow> (\<forall>p \<in> set peaks. index p \<le> length detrended)"
    and "i + 1 < length peaks"
    and "detectSceneChanges config \<longrightarrow>
           (\<forall>k. index (peaks ! i) \<le> k \<and> k < index (peaks ! (i + 1)) \<longrightarrow> \<not> isSceneCut (detrended ! k))"
  shows "\<exists>loops. atomicLoops config detrended peaks = Inr loops
           \<and> ((\<exists>l \<in> set loops. loop_id l = AtomId i) \<longleftrightarrow>
                minLoopDuration config \<le> time (peaks ! (i + 1)) - time (peaks ! i)
                \<and> time (peaks ! (i + 1)) - time (peaks ! i) \<le> maxLoopDuration config)"
proof -
  obtain loops where l: "atomicLoops config detrended peaks = Inr loops"
    using atomicLoops_eq [OF assms(1)] by blast
  from atom_emitted_iff [OF assms(1,2) l] assms(3)
  have "(\<exists>l \<in> set loops. loop_id l = AtomId i) \<longleftrightarrow>
                minLoopDuration config \<le> time (peaks ! (i + 1)) - time (peaks ! i)
                \<and> time (peaks ! (i + 1)) - time (peaks ! i) \<le> maxLoopDuration config"
    by blast
  with l show ?thesis by blast
qed

theorem C7_duration_bounds_inclusive_witness:
  "time (bound_peaks ! (0 + 1)) - time (bound_peaks ! 0) = minLoopDuration bound_config
   \<and> time (bound_peaks ! (1 + 1)) - time (bound_peaks ! 1) = maxLoopDuration bound_config
   \<and> (\<exists>loops. atomicLoops bound_config plain_signal bound_peaks = Inr loops
         \<and> (\<exists>l \<in> set loops. loop_id l = AtomId 0))
   \<and> (\<exists>loops. atomicLoops bound_config plain_signal bound_peaks = Inr loops
         \<and> (\<exists>l \<in> set loops. loop_id l = AtomId 1))"
proof -
  have h1: "detectSceneChanges bound_config \<longrightarrow> (\<forall>p \<in> set bound_peaks. index p \<le> length plain_signal)"
    by (simp add: bound_peaks_def plain_signal_def pair_signal_def)
  have unflagged: "\<forall>d \<in> set plain_signal. \<not> isSceneCut d"
    by (simp add: plain_signal_def)
  have h3: "detectSceneChanges bound_config \<longrightarrow>
              (\<forall>k. index (bound_peaks ! i) \<le> k \<and> k < index (bound_peaks ! (i + 1))
                    \<longrightarrow> \<not> isSceneCut (plain_signal ! k))"
    if "i + 1 < length bound_peaks" for i
  proof (intro impI allI)
    fix k assume "index (bound_peaks ! i) \<le> k \<and> k < index (bound_peaks ! (i + 1))"
    moreover have "index (bound_peaks ! (i + 1)) \<le> length plain_signal"
      using h1 that by (simp add: bound_config_def cut_config_def)
    ultimately have "plain_signal ! k \<in> set plain_signal" by simp
    with unflagged show "\<not> isSceneCut (plain_signal ! k)" by blast
  qed
  have l0: "0 + 1 < length bound_peaks" and l1: "1 + 1 < length bound_peaks"
    by (simp_all add: bound_peaks_def)
  have d0: "time (bound_peaks ! (0 + 1)) - time (bound_peaks ! 0) = minLoopDuration bound_config"
    by (simp add: bound_peaks_def bound_config_def sampleOf_def)
  have d1: "time (bound_peaks ! (1 + 1)) - time (bound_peaks ! 1) = maxLoopDuration bound_config"
    by (simp add: bound_peaks_def bound_config_def sampleOf_def)
  have b: "minLoopDuration bound_config \<le> maxLoopDuration bound_config"
    by (simp add: bound_config_def)
  from C7_duration_bounds_inclusive [OF h1 l0 h3 [OF l0]] d0 b
  have r0: "\<exists>loops. atomicLoops bound_config plain_signal bound_peaks = Inr loops
             \<and> (\<exists>l \<in> set loops. loop_id l = AtomId 0)"
    by simp
  from C7_duration_bounds_inclusive [OF h1 l1 h3 [OF l1]] d1 b
  have r1: "\<exists>loops. atomicLoops bound_config plain_signal bound_peaks = Inr loops
             \<and> (\<exists>l \<in> set loops. loop_id l = AtomId 1)"
    by simp
  from d0 d1 r0 r1 show ?thesis by blast
qed

text \<open>
  C1, as the code has it. With scene-cut detection on, a pair of consecutive peaks gives
  an atomic loop exactly when no instant from the first peak's index up to, not
  including, the second peak's index is flagged and the duration is within the bounds.
  A flag at the first peak's own index rejects the pair; a flag at the second peak's
  index does not.
\<close>

theorem C1_scene_cut_window:
  assumes "detectSceneChanges config"
    and "\<forall>p \<in> set peaks. index p \<le> length detrended"
    and "i + 1 < length peaks"
  shows "\<exists>loops. atomicLoops config detrended peaks = Inr loops
           \<and> ((\<exists>l \<in> set loops. loop_id l = AtomId i) \<longleftrightarrow>
                \<not> (\<exists>k. index (peaks ! i) \<le> k \<and> k < index (peaks ! (i + 1))
                        \<and> isSceneCut (detrended ! k))
                \<and> minLoopDuration config \<le> time (peaks ! (i + 1)) - time (peaks ! i)
                \<and> time (peaks ! (i + 1)) - time (peaks ! i) \<le> maxLoopDuration config)"
proof -
  have r: "detectSceneChanges config \<longrightarrow> (\<forall>p \<in> set peaks. index p \<le> length detrended)"
    using assms(2) by blast
  obtain loops where l: "atomicLoops config detrended peaks = Inr loops"
    using atomicLoops_eq [OF r] by blast
  from atom_emitted_iff [OF r assms(3) l] assms(1) l show ?thesis
    by simp
qed

theorem C1_scene_cut_window_witness:
  "detectSceneChanges cut_config
   \<and> map time pair_peaks = [2.0, 3.0] \<and> map index pair_peaks = [4, 6]
   \<and> time (pair_signal ! 5) = 2.5 \<and> isSceneCut (pair_signal ! 5)
   \<and> minLoopDuration cut_config \<le> time (pair_peaks ! (0 + 1)) - time (pair_peaks ! 0)
   \<and> time (pair_peaks ! (0 + 1)) - time (pair_peaks ! 0) \<le> maxLoopDuration cut_config
   \<and> (\<exists>loops. atomicLoops cut_config pair_signal pair_peaks = Inr loops
         \<and> \<not> (\<exists>l \<in> set loops. loop_id l = AtomId 0))"
proof -
  have h1: "detectSceneChanges cut_config" by (simp add: cut_config_def)
  have h2: "\<forall>p \<in> set pair_peaks. index p \<le> length pair_signal"
    by (simp add: pair_peaks_def pair_signal_def)
  have h3: "0 + 1 < length pair_peaks" by (simp add: pair_peaks_def)
  have facts: "map time pair_peaks = [2.0, 3.0]" "map index pair_peaks = [4, 6]"
    "time (pair_signal ! 5) = 2.5" "isSceneCut (pair_signal ! 5)"
    "minLoopDuration cut_config \<le> time (pair_peaks ! (0 + 1)) - time (pair_peaks ! 0)"
    "time (pair_peaks ! (0 + 1)) - time (pair_peaks ! 0) \<le> maxLoopDuration cut_config"
    by (simp_all add: pair_peaks_def pair_signal_def sampleOf_def cut_config_def)
  have "index (pair_peaks ! 0) \<le> 5 \<and> 5 < index (pair_peaks ! (0 + 1)) \<and> isSceneCut (pair_signal ! 5)"
    by (simp add: pair_peaks_def pair_signal_def sampleOf_def)
  then have cut: "\<exists>k. index (pair_peaks ! 0) \<le> k \<and> k < index (pair_peaks ! (0 + 1))
                      \<and> isSceneCut (pair_signal ! k)"
    by blast
  from C1_scene_cut_window [OF h1 h2 h3] cut
  have "\<exists>loops. atomicLoops cut_config pair_signal pair_peaks = Inr loops
         \<and> \<not> (\<exists>l \<in> set loops. loop_id l = AtomId 0)"
    by blast
  with h1 facts show ?thesis by blast
qed

lemmas atomic_eval =
  atomicLoops_def atomicStep_def hasCut_def js_nth_def atomOf_def js_round_def

text \<open>
  The claim as written, refuted. In the clip \<open>cut_raw\<close> the peaks are at the indices 2 and
  6 (times 1 and 3, a duration within the bounds) and the only flagged instant is the
  first peak's own index 2: nothing is flagged strictly between the peaks, and still the
  pair gives no atomic loop, while with the detection off it gives one.
\<close>

theorem C1_counterexample:
  "detectSceneChanges cut_config
   \<and> map index (peaksOf cut_config cut_raw) = [2, 6]
   \<and> map time (peaksOf cut_config cut_raw) = [1, 3]
   \<and> map isSceneCut (detrendedOf cut_config cut_raw)
       = [False, False, True, False, False, False, False, False, False]
   \<and> minLoopDuration cut_config \<le> 3 - 1 \<and> (3 - 1 :: real) \<le> maxLoopDuration cut_config
   \<and> atomicLoops cut_config (detrendedOf cut_config cut_raw) (peaksOf cut_config cut_raw) = Inr []
   \<and> map loop_id (projr (atomicLoops (cut_config\<lparr>detectSceneChanges := False\<rparr>)
                            (detrendedOf cut_config cut_raw) (peaksOf cut_config cut_raw)))
       = [AtomId 0]"
  by (simp add: pipeline_eval atomic_eval cut_config_def cut_raw_def rawSample_def)

text \<open>
  The duration rule with "no scene cut flagged between the peaks" read strictly,
  refuted. In the clip \<open>still_start_raw\<close> the detection is on, the peaks are at the indices
  2 and 6, no instant strictly between them (the indices 3, 4 and 5) is flagged, and the
  duration 2 lies within the bounds 0.5 and 5; the flag at the first peak's index 2
  leaves the pair without an atomic loop.
\<close>

theorem C7_counterexample:
  "detectSceneChanges cut_config
   \<and> map index (peaksOf cut_config still_start_raw) = [2, 6]
   \<and> map isSceneCut (detrendedOf cut_config still_start_raw)
       = [False, False, True, False, False, False, False, False, False]
   \<and> time (peaksOf cut_config still_start_raw ! 1) - time (peaksOf cut_config still_start_raw ! 0) = 2
   \<and> minLoopDuration cut_config \<le> 2 \<and> (2 :: real) \<le> maxLoopDuration cut_config
   \<and> atomicLoops cut_config (detrendedOf cut_config still_start_raw)
         (peaksOf cut_config still_start_raw) = Inr []"
  by (simp add: pipeline_eval atomic_eval cut_config_def still_start_raw_def rawSample_def)

subsection \<open>Repetitions and sets\<close>

lemma mergeSet_nonempty:
  "loops \<noteq> [] \<Longrightarrow> \<exists>m. mergeSet now loops = Inr m \<and> repCount m = length loops
      \<and> startTime m = startTime (hd loops) \<and> endTime m = endTime (last loops)"
  by (cases loops) (simp_all add: mergeSet_def Let_def)

lemma gapScan_eq:
  "\<forall>k \<in> set ks. 0 \<le> k \<and> k < int (length detrended) \<Longrightarrow>
     gapScan detrended ks g = Inr (g \<or> (\<exists>k \<in> set ks. isSceneCut (detrended ! nat k)))"
  by (induction ks arbitrary: g) (auto simp: js_nth_def)

lemma gapHasCut_returns:
  assumes "detectSceneChanges config \<longrightarrow> 0 \<le> endTime prev * samplingRate config"
  shows "\<exists>b. gapHasCut config detrended prev cur = Inr b"
proof (cases "detectSceneChanges config")
  case True
  with assms have lo: "0 \<le> \<lfloor>endTime prev * samplingRate config\<rfloor>" by simp
  have "\<forall>k \<in> set [\<lfloor>endTime prev * samplingRate config\<rfloor> ..
                 min \<lceil>startTime cur * samplingRate config\<rceil> (int (length detrended)) - 1].
               0 \<le> k \<and> k < int (length detrended)"
  proof
    fix k
    assume "k \<in> set [\<lfloor>endTime prev * samplingRate config\<rfloor> ..
                 min \<lceil>startTime cur * samplingRate config\<rceil> (int (length detrended)) - 1]"
    then have "\<lfloor>endTime prev * samplingRate config\<rfloor> \<le> k" and "k < int (length detrended)"
      by simp_all
    with lo show "0 \<le> k \<and> k < int (length detrended)" by linarith
  qed
  from gapScan_eq [OF this] True show ?thesis
    by (simp add: gapHasCut_def Let_def)
next
  case False
  then have "gapHasCut config detrended prev cur = Inr False" by (simp add: gapHasCut_def)
  then show ?thesis by blast
qed

lemma setsWalk_groups:
  assumes "currentSet \<noteq> []"
    and "detectSceneChanges config \<longrightarrow>
           (\<forall>l \<in> set (currentSet @ rest). 0 \<le> endTime l * samplingRate config)"
  shows "\<exists>groups merged. concat groups = currentSet @ rest \<and> [] \<notin> set groups
           \<and> list_all2 (\<lambda>g m. mergeSet now g = Inr m) groups merged
           \<and> setsWalk config now detrended rest currentSet closedSets = Inr (closedSets @ merged)"
  using assms
proof (induction rest arbitrary: currentSet closedSets)
  case Nil
  from mergeSet_nonempty [OF Nil(1)] obtain m where m: "mergeSet now currentSet = Inr m"
    by blast
  have "concat [currentSet] = currentSet @ []" by simp
  moreover have "[] \<notin> set [currentSet]" using Nil(1) by simp
  moreover have "list_all2 (\<lambda>g m. mergeSet now g = Inr m) [currentSet] [m]" using m by simp
  moreover have "setsWalk config now detrended [] currentSet closedSets = Inr (closedSets @ [m])"
    using m by simp
  ultimately show ?case by blast
next
  case (Cons cur rest)
  obtain x xs where cs: "currentSet = x # xs" using Cons.prems(1) by (cases currentSet) auto
  have "last currentSet \<in> set (currentSet @ cur # rest)" using Cons.prems(1) by simp
  with Cons.prems(2)
  have "detectSceneChanges config \<longrightarrow> 0 \<le> endTime (last currentSet) * samplingRate config"
    by blast
  from gapHasCut_returns [OF this]
  obtain b where b: "gapHasCut config detrended (last currentSet) cur = Inr b" by blast
  show ?case
  proof (cases "startTime cur - endTime (last currentSet) < max 2.0 (duration (last currentSet) * 3.0) \<and> \<not> b")
    case True
    have "currentSet @ [cur] \<noteq> []" by simp
    moreover have "detectSceneChanges config \<longrightarrow>
           (\<forall>l \<in> set ((currentSet @ [cur]) @ rest). 0 \<le> endTime l * samplingRate config)"
      using Cons.prems(2) by simp
    ultimately obtain groups merged where
      g: "concat groups = (currentSet @ [cur]) @ rest" "[] \<notin> set groups"
         "list_all2 (\<lambda>g m. mergeSet now g = Inr m) groups merged"
         "setsWalk config now detrended rest (currentSet @ [cur]) closedSets = Inr (closedSets @ merged)"
      using Cons.IH [of "currentSet @ [cur]" closedSets] by blast
    have "setsWalk config now detrended (cur # rest) currentSet closedSets = Inr (closedSets @ merged)"
      using True b g(4) cs by (simp add: Let_def)
    with g(1-3) show ?thesis by auto
  next
    case False
    from mergeSet_nonempty [OF Cons.prems(1)] obtain m where m: "mergeSet now currentSet = Inr m"
      by blast
    have "[cur] \<noteq> []" by simp
    moreover have "detectSceneChanges config \<longrightarrow>
           (\<forall>l \<in> set ([cur] @ rest). 0 \<le> endTime l * samplingRate config)"
      using Cons.prems(2) by simp
    ultimately obtain groups merged where
      g: "concat groups = [cur] @ rest" "[] \<notin> set groups"
         "list_all2 (\<lambda>g m. mergeSet now g = Inr m) groups merged"
         "setsWalk config now detrended rest [cur] (closedSets @ [m]) = Inr ((closedSets @ [m]) @ merged)"
      using Cons.IH [of "[cur]" "closedSets @ [m]"] by blast
    have w: "setsWalk config now detrended (cur # rest) currentSet closedSets = Inr (closedSets @ m # merged)"
      using False b g(4) m cs by (auto simp: Let_def)
    have "concat (currentSet # groups) = currentSet @ cur # rest" using g(1) by simp
    moreover have "[] \<notin> set (currentSet # groups)" using g(2) Cons.prems(1) by auto
    moreover have "list_all2 (\<lambda>g m. mergeSet now g = Inr m) (currentSet # groups) (m # merged)"
      using g(3) m by simp
    ultimately show ?thesis using w by blast
  qed
qed

lemma groups_count:
  assumes "[] \<notin> set groups" and "list_all2 (\<lambda>g m. mergeSet now g = Inr m) groups merged"
  shows "length merged \<le> length (concat groups)
         \<and> sum_list (map repCount merged) = length (concat groups)"
  using assms(2,1)
proof (induction rule: list_all2_induct)
  case Nil
  then show ?case by simp
next
  case (Cons g gs m ms)
  from Cons.prems have ne: "g \<noteq> []" and rest: "[] \<notin> set gs" by auto
  from mergeSet_nonempty [OF ne, of now] Cons.hyps(1) have "repCount m = length g" by simp
  moreover have "1 \<le> length g" using ne by (cases g) simp_all
  ultimately show ?case using Cons.IH [OF rest] by simp
qed

lemma finalLoops_reps:
  assumes "detectionMode config = Reps"
  shows "finalLoops config now detrended atomic =
           Inr (map_indexed (\<lambda>l i arr. l\<lparr>loop_id := RepId now i, label := Some (Repetition (i + 1))\<rparr>)
                  atomic)"
  using assms by (simp add: finalLoops_def)

lemma finalLoops_sets:
  assumes "detectionMode config = Sets"
    and "detectSceneChanges config \<longrightarrow> (\<forall>l \<in> set atomic. 0 \<le> endTime l * samplingRate config)"
  shows "\<exists>groups final. concat groups = atomic \<and> [] \<notin> set groups
           \<and> list_all2 (\<lambda>g m. mergeSet now g = Inr m) groups final
           \<and> finalLoops config now detrended atomic = Inr final"
proof (cases atomic)
  case Nil
  have "concat [] = atomic" using Nil by simp
  moreover have "list_all2 (\<lambda>g m. mergeSet now g = Inr m) [] []" by simp
  moreover have "finalLoops config now detrended atomic = Inr []"
    using Nil assms(1) by (simp add: finalLoops_def)
  ultimately show ?thesis by fastforce
next
  case (Cons first rest)
  have "[first] \<noteq> []" by simp
  moreover have "detectSceneChanges config \<longrightarrow>
           (\<forall>l \<in> set ([first] @ rest). 0 \<le> endTime l * samplingRate config)"
    using assms(2) Cons by simp
  ultimately obtain groups merged where
    g: "concat groups = [first] @ rest" "[] \<notin> set groups"
       "list_all2 (\<lambda>g m. mergeSet now g = Inr m) groups merged"
       "setsWalk config now detrended rest [first] [] = Inr ([] @ merged)"
    using setsWalk_groups [of "[first]" config rest now detrended "[]"] by blast
  have "finalLoops config now detrended atomic = Inr merged"
    using g(4) Cons assms(1) by (simp add: finalLoops_def)
  moreover have "concat groups = atomic" using g(1) Cons by simp
  ultimately show ?thesis using g(2,3) by blast
qed

text \<open>
  C8. On a list of \<open>N\<close> atomic loops (each with \<open>repCount = 1\<close>) the final processing
  ends without an exception; in repetitions mode it gives \<open>N\<close> final units, each with
  \<open>repCount = 1\<close>; in sets mode it gives at most \<open>N\<close> final units whose \<open>repCount\<close> values
  add up to \<open>N\<close>, each the merge of one group of a partition of the list into consecutive
  non-empty groups. (With the scene-cut detection on, the gap scan reads the samples from
  the index \<open>floor (endTime * samplingRate)\<close>, which must not be negative.)
\<close>

theorem C8_reps_sets_duality:
  assumes "\<forall>l \<in> set atomic. repCount l = 1"
    and "detectSceneChanges config \<longrightarrow> (\<forall>l \<in> set atomic. 0 \<le> endTime l * samplingRate config)"
  shows "\<exists>final. finalLoops config now detrended atomic = Inr final
           \<and> (detectionMode config = Reps \<longrightarrow>
                length final = length atomic \<and> (\<forall>u \<in> set final. repCount u = 1))
           \<and> (detectionMode config = Sets \<longrightarrow>
                length final \<le> length atomic
                \<and> sum_list (map repCount final) = length atomic
                \<and> (\<exists>groups. concat groups = atomic \<and> [] \<notin> set groups
                      \<and> list_all2 (\<lambda>g m. mergeSet now g = Inr m) groups final))"
proof (cases "detectionMode config")
  case Reps
  let ?final = "map_indexed (\<lambda>l i arr. l\<lparr>loop_id := RepId now i, label := Some (Repetition (i + 1))\<rparr>)
                  atomic"
  have "finalLoops config now detrended atomic = Inr ?final"
    using Reps by (rule finalLoops_reps)
  moreover have "length ?final = length atomic" by simp
  moreover have "\<forall>u \<in> set ?final. repCount u = 1"
    using assms(1) by (auto simp: map_indexed_def)
  ultimately show ?thesis using Reps by simp
next
  case Sets
  from finalLoops_sets [OF Sets assms(2)] obtain groups final where
    g: "concat groups = atomic" "[] \<notin> set groups"
       "list_all2 (\<lambda>g m. mergeSet now g = Inr m) groups final"
       "finalLoops config now detrended atomic = Inr final"
    by blast
  from groups_count [OF g(2,3)] g(1)
  have "length final \<le> length atomic" "sum_list (map repCount final) = length atomic"
    by simp_all
  with g Sets show ?thesis by auto
qed

lemma sets_loops_reachable:
  "atomicLoops sets_config detrended sets_peaks = Inr sets_loops"
  by (simp add: atomic_eval sets_config_def sets_peaks_def sets_loops_def sampleOf_def)

lemmas sets_eval =
  finalLoops_def mergeSet_def gapHasCut_def atomOf_def js_round_def map_indexed_def

theorem C8_reps_sets_duality_witness:
  "map repCount sets_loops = [1, 1, 1] \<and> \<not> detectSceneChanges sets_config
   \<and> length sets_loops = 3
   \<and> (\<exists>final. finalLoops sets_config 0 [] sets_loops = Inr final \<and> map repCount final = [2, 1])
   \<and> (\<exists>final. finalLoops (sets_config\<lparr>detectionMode := Reps\<rparr>) 0 [] sets_loops = Inr final
         \<and> map repCount final = [1, 1, 1])"
  using C8_reps_sets_duality [of sets_loops sets_config 0 "[]"]
    C8_reps_sets_duality [of sets_loops "sets_config\<lparr>detectionMode := Reps\<rparr>" 0 "[]"]
  by (simp add: sets_eval sets_config_def sets_peaks_def sets_loops_def sampleOf_def)

text \<open>
  C3, as the code has it. In sets mode with the scene-cut detection off, the atomic loops
  \<open>[0, 1]\<close>, \<open>[1.2, 2.1]\<close>, \<open>[5.0, 5.9]\<close> give two final units. The gap 0.2 after the first
  loop is below \<open>max 2.0 (1 * 3.0) = 3\<close>, so the second loop joins the first loop's group.
  The gap 2.9 after the second loop is not below \<open>max 2.0 (0.9 * 3.0) = 2.7\<close>, so the
  group is closed as a set of 2 repetitions over \<open>[0, 2.1]\<close> and the third loop is a set
  of 1 over \<open>[5.0, 5.9]\<close>.
\<close>

theorem C3_gap_rule_example:
  "finalLoops sets_config now detrended sets_loops =
     Inr [\<lparr>loop_id = SetId now 0, startTime = 0, endTime = 2.1, duration = 2.1, bpm = 64,
           confidence = 40 / 51, repCount = 2, thumbnail = None, label = Some (SetOfReps 2)\<rparr>,
          \<lparr>loop_id = SetId now 5, startTime = 5, endTime = 5.9, duration = 0.9, bpm = 67,
           confidence = 40 / 51, repCount = 1, thumbnail = None, label = Some (SetOfReps 1)\<rparr>]"
  by (simp add: sets_eval sets_config_def sets_peaks_def sets_loops_def sampleOf_def)

text \<open>
  The claim as written, refuted: the gap before the third loop is 2.9, the bound is 2.7,
  the test \<open>gap < maxGap\<close> fails, and the result is not one unit of 3 repetitions.
\<close>

theorem C3_counterexample:
  "\<not> detectSceneChanges sets_config \<and> detectionMode sets_config = Sets
   \<and> map (\<lambda>l. (startTime l, endTime l)) sets_loops = [(0, 1), (1.2, 2.1), (5.0, 5.9)]
   \<and> startTime (sets_loops ! 1) - endTime (sets_loops ! 0) = 0.2
   \<and> max 2.0 (duration (sets_loops ! 0) * 3.0) = 3
   \<and> startTime (sets_loops ! 2) - endTime (sets_loops ! 1) = 2.9
   \<and> max 2.0 (duration (sets_loops ! 1) * 3.0) = 2.7
   \<and> \<not> (startTime (sets_loops ! 2) - endTime (sets_loops ! 1)
          < max 2.0 (duration (sets_loops ! 1) * 3.0))
   \<and> map_sum id (map repCount) (finalLoops sets_config 0 [] sets_loops) = Inr [2, 1]"
  by (simp add: sets_eval sets_config_def sets_peaks_def sets_loops_def sampleOf_def)

subsection \<open>The sampling loop\<close>

lemma samplingLoop_returns:
  "0 < interval \<Longrightarrow> \<exists>st'. samplingLoop env audioBuffer interval duration' t st = Some st'"
proof (induction env audioBuffer interval duration' t st rule: samplingLoop.induct)
  case (1 env audioBuffer interval duration' t st)
  show ?case
  proof (cases "t < duration'")
    case True
    with 1 show ?thesis by (subst samplingLoop.simps) simp
  next
    case False
    then show ?thesis by (subst samplingLoop.simps) simp
  qed
qed

lemma samplingLoop_invariant:
  assumes "samplingLoop env audioBuffer interval duration' t st = Some st'"
    and "I t st"
    and "\<And>t st. I t st \<Longrightarrow> t < duration' \<Longrightarrow> 0 < interval
           \<Longrightarrow> I (t + interval) (sampleStep env audioBuffer interval duration' t st)"
  shows "\<exists>t'. I t' st'"
  using assms
proof (induction env audioBuffer interval duration' t st rule: samplingLoop.induct)
  case (1 env audioBuffer interval duration' t st)
  show ?case
  proof (cases "t < duration'")
    case True
    with "1.prems"(1) have pos: "0 < interval"
      by (subst (asm) samplingLoop.simps) (simp split: if_splits)
    with True "1.prems"(1)
    have rec: "samplingLoop env audioBuffer interval duration' (t + interval)
                 (sampleStep env audioBuffer interval duration' t st) = Some st'"
      by (subst (asm) samplingLoop.simps) simp
    have "I (t + interval) (sampleStep env audioBuffer interval duration' t st)"
      using "1.prems"(2,3) True pos by blast
    with "1.IH" True pos rec "1.prems"(3) show ?thesis by simp
  next
    case False
    with "1.prems"(1) have "st' = st" by (subst (asm) samplingLoop.simps) simp
    with "1.prems"(2) show ?thesis by blast
  qed
qed

lemma getAudioRMS_None [simp]: "getAudioRMS None t win = 0"
  by (simp add: getAudioRMS_def)

lemma getAudioRMS_nonneg: "0 \<le> getAudioRMS audioBuffer t win"
proof (cases audioBuffer)
  case None
  then show ?thesis by simp
next
  case (Some buf)
  have "0 \<le> sum_list (map (\<lambda>i. channelData buf ! nat i * channelData buf ! nat i) js)" for js :: "int list"
    by (intro sum_list_nonneg) auto
  then show ?thesis
    using Some by (simp add: getAudioRMS_def Let_def foldl_window_pair del: length_upto)
qed

lemma foldl_diffScore_nonneg:
  fixes acc :: "real \<times> real \<times> real"
  assumes "0 \<le> fst acc" and "\<And>i. 0 \<le> g i"
  shows "0 \<le> fst (foldl (\<lambda>(diffScore, pxSum, pxSumSq) i.
                  (diffScore + g i, h pxSum i, k pxSumSq i)) acc is)"
  using assms(1)
proof (induction "is" arbitrary: acc)
  case Nil
  then show ?case by simp
next
  case (Cons i "is")
  obtain a b c where acc: "acc = (a, b, c)" by (cases acc)
  with Cons.prems assms(2) [of i] have "0 \<le> fst (a + g i, h b i, k c i)" by simp
  from Cons.IH [OF this] acc show ?case by simp
qed

lemma captureFrame_nonneg: "0 \<le> fst (captureFrame frame prevFrameData)"
proof -
  have "0 \<le> fst (foldl (\<lambda>(diffScore, pxSum, pxSumSq) i.
                 (let gray = grayOf (frame ! i)
                  in ((case prevFrameData of
                         None \<Rightarrow> diffScore
                       | Some prevFrame \<Rightarrow> diffScore + sqrt \<bar>gray - grayOf (prevFrame ! i)\<bar>),
                      pxSum + gray, pxSumSq + gray * gray)))
               (0, 0, 0) [0..<length frame])"
  proof (cases prevFrameData)
    case None
    have "0 \<le> fst (foldl (\<lambda>(diffScore, pxSum, pxSumSq) i.
                  (diffScore + 0, pxSum + grayOf (frame ! i),
                   pxSumSq + grayOf (frame ! i) * grayOf (frame ! i)))
               ((0, 0, 0) :: real \<times> real \<times> real) [0..<length frame])"
      by (rule foldl_diffScore_nonneg) simp_all
    with None show ?thesis by (simp add: Let_def)
  next
    case (Some prevFrame)
    have "0 \<le> fst (foldl (\<lambda>(diffScore, pxSum, pxSumSq) i.
                  (diffScore + sqrt \<bar>grayOf (frame ! i) - grayOf (prevFrame ! i)\<bar>,
                   pxSum + grayOf (frame ! i),
                   pxSumSq + grayOf (frame ! i) * grayOf (frame ! i)))
               ((0, 0, 0) :: real \<times> real \<times> real) [0..<length frame])"
      by (rule foldl_diffScore_nonneg) simp_all
    with Some show ?thesis by (simp add: Let_def)
  qed
  moreover have "fst (captureFrame frame prevFrameData) =
      fst (foldl (\<lambda>(diffScore, pxSum, pxSumSq) i.
                 (let gray = grayOf (frame ! i)
                  in ((case prevFrameData of
                         None \<Rightarrow> diffScore
                       | Some prevFrame \<Rightarrow> diffScore + sqrt \<bar>gray - grayOf (prevFrame ! i)\<bar>),
                      pxSum + gray, pxSumSq + gray * gray)))
               (0, 0, 0) [0..<length frame]) / real (length frame)"
    by (auto simp: captureFrame_def Let_def split: prod.splits)
  ultimately show ?thesis by simp
qed

lemma sampleStep_fields:
  "st_combinedData (sampleStep env audioBuffer interval duration' t st)
     = st_combinedData st @
         [\<lparr>time = t, val = 0, isSceneCut = False,
           raw_v = (if snd (captureFrame (seekFrame env t) (st_prevFrameData st)) < 10 then 0
                    else fst (captureFrame (seekFrame env t) (st_prevFrameData st))),
           raw_a = getAudioRMS audioBuffer t interval\<rparr>]"
  "st_events (sampleStep env audioBuffer interval duration' t st)
     = st_events st @ [OnProgress (t / duration' * 100)]"
  by (simp_all add: sampleStep_def Let_def split: prod.splits)

text \<open>
  What the sampling loop leaves behind: progress values in \<open>[0, 100)\<close> only, and samples
  at times that are not negative, with raw scores that are not negative and, without an
  audio buffer, an audio score of 0.
\<close>

lemma samplingLoop_facts:
  assumes "samplingLoop env audioBuffer interval duration' 0 initialState = Some st"
  shows "\<exists>ps. st_events st = map OnProgress ps \<and> (\<forall>p \<in> set ps. 0 \<le> p \<and> p < 100)"
    and "\<forall>d \<in> set (st_combinedData st). 0 \<le> time d \<and> 0 \<le> raw_v d \<and> 0 \<le> raw_a d"
    and "audioBuffer = None \<longrightarrow> (\<forall>d \<in> set (st_combinedData st). raw_a d = 0)"
proof -
  let ?I = "\<lambda>(t :: real) s.
      0 \<le> t
      \<and> (\<exists>ps. st_events s = map OnProgress ps \<and> (\<forall>p \<in> set ps. 0 \<le> p \<and> p < 100))
      \<and> (\<forall>d \<in> set (st_combinedData s). 0 \<le> time d \<and> 0 \<le> raw_v d \<and> 0 \<le> raw_a d)
      \<and> (audioBuffer = None \<longrightarrow> (\<forall>d \<in> set (st_combinedData s). raw_a d = 0))"
  have init: "?I 0 initialState"
    by (simp add: initialState_def)
  have step: "?I (t + interval) (sampleStep env audioBuffer interval duration' t s)"
    if inv: "?I t s" and lt: "t < duration'" and pos: "0 < interval" for t s
  proof -
    from inv obtain ps where ps: "st_events s = map OnProgress ps" "\<forall>p \<in> set ps. 0 \<le> p \<and> p < 100"
      by blast
    from inv lt have t: "0 \<le> t" "0 < duration'" by simp_all
    then have p: "0 \<le> t / duration' * 100" "t / duration' * 100 < 100"
      using lt by (simp_all add: field_simps)
    have "st_events (sampleStep env audioBuffer interval duration' t s)
            = map OnProgress (ps @ [t / duration' * 100])"
      by (simp add: sampleStep_fields ps(1))
    moreover have "\<forall>p \<in> set (ps @ [t / duration' * 100]). 0 \<le> p \<and> p < 100"
      using ps(2) p by simp
    ultimately have ev: "\<exists>ps. st_events (sampleStep env audioBuffer interval duration' t s) = map OnProgress ps
                          \<and> (\<forall>p \<in> set ps. 0 \<le> p \<and> p < 100)"
      by blast
    have data: "\<forall>d \<in> set (st_combinedData (sampleStep env audioBuffer interval duration' t s)).
                  0 \<le> time d \<and> 0 \<le> raw_v d \<and> 0 \<le> raw_a d"
      using inv t(1) captureFrame_nonneg [of "seekFrame env t" "st_prevFrameData s"]
        getAudioRMS_nonneg [of audioBuffer t interval]
      by (auto simp: sampleStep_fields)
    have silent: "audioBuffer = None \<longrightarrow>
                    (\<forall>d \<in> set (st_combinedData (sampleStep env audioBuffer interval duration' t s)).
                       raw_a d = 0)"
      using inv by (auto simp: sampleStep_fields)
    from t(1) pos ev data silent show ?thesis by simp
  qed
  from samplingLoop_invariant [of env audioBuffer interval duration' 0 initialState st ?I, OF assms init step]
  obtain t' where "?I t' st" by blast
  then show "\<exists>ps. st_events st = map OnProgress ps \<and> (\<forall>p \<in> set ps. 0 \<le> p \<and> p < 100)"
    and "\<forall>d \<in> set (st_combinedData st). 0 \<le> time d \<and> 0 \<le> raw_v d \<and> 0 \<le> raw_a d"
    and "audioBuffer = None \<longrightarrow> (\<forall>d \<in> set (st_combinedData st). raw_a d = 0)"
    by blast+
qed

text \<open>
  The sampling loop reports one progress value per sample, in the order of the samples:
  the value \<open>t / duration * 100\<close> for the sample's time \<open>t\<close>, which lies in
  \<open>[0, duration)\<close>. A duration that is not positive gives no sample and no progress value.
\<close>

lemma samplingLoop_progress:
  assumes "samplingLoop env audioBuffer interval duration' 0 initialState = Some st"
  shows "st_events st = map (\<lambda>d. OnProgress (time d / duration' * 100)) (st_combinedData st)"
    and "\<forall>d \<in> set (st_combinedData st). 0 \<le> time d \<and> time d < duration'"
    and "duration' \<le> 0 \<longrightarrow> st_combinedData st = []"
proof -
  let ?I = "\<lambda>(t :: real) s.
      0 \<le> t
      \<and> st_events s = map (\<lambda>d. OnProgress (time d / duration' * 100)) (st_combinedData s)
      \<and> (\<forall>d \<in> set (st_combinedData s). 0 \<le> time d \<and> time d < duration')"
  have init: "?I 0 initialState"
    by (simp add: initialState_def)
  have step: "?I (t + interval) (sampleStep env audioBuffer interval duration' t s)"
    if inv: "?I t s" and lt: "t < duration'" and pos: "0 < interval" for t s
    using inv lt pos by (simp add: sampleStep_fields)
  from samplingLoop_invariant [of env audioBuffer interval duration' 0 initialState st ?I, OF assms init step]
  obtain t' where inv: "?I t' st" by blast
  then show "st_events st = map (\<lambda>d. OnProgress (time d / duration' * 100)) (st_combinedData st)"
    by blast
  from inv show range: "\<forall>d \<in> set (st_combinedData st). 0 \<le> time d \<and> time d < duration'"
    by blast
  show "duration' \<le> 0 \<longrightarrow> st_combinedData st = []"
  proof
    assume np: "duration' \<le> 0"
    show "st_combinedData st = []"
    proof (cases "st_combinedData st")
      case Nil
      then show ?thesis .
    next
      case (Cons d ds)
      then have "d \<in> set (st_combinedData st)" by simp
      with range have "0 \<le> time d \<and> time d < duration'" by blast
      with np show ?thesis by simp
    qed
  qed
qed

subsection \<open>The stages keep times and raw scores\<close>

lemma map_map_indexed:
  assumes "\<And>d i. g (f d i arr) = g d"
  shows "map g (map_indexed f arr) = map g arr"
proof -
  have "map g (map_indexed f arr) = map (\<lambda>i. g (arr ! i)) [0..<length arr]"
    by (simp add: map_indexed_def assms)
  also have "\<dots> = map g (map (\<lambda>i. arr ! i) [0..<length arr])"
    by (simp add: comp_def)
  also have "\<dots> = map g arr"
    by (simp only: map_nth)
  finally show ?thesis .
qed

lemma time_detrendedOf [simp]: "map time (detrendedOf config combinedData) = map time combinedData"
  by (simp add: detrendedOf_def detrendedData_def flagSceneCuts_def processedData_def
        map_map_indexed comp_def Let_def)

lemma raw_a_detrendedOf [simp]: "map raw_a (detrendedOf config combinedData) = map raw_a combinedData"
  by (simp add: detrendedOf_def detrendedData_def flagSceneCuts_def processedData_def
        map_map_indexed comp_def Let_def)

lemma time_smoothedData [simp]: "map time (smoothedData config detrended) = map time detrended"
  by (simp add: smoothedData_def map_map_indexed)

lemma peaksOf_facts:
  assumes "p \<in> set (peaksOf config combinedData)"
  shows "index p < length combinedData"
    and "time p = time (combinedData ! index p)"
proof -
  let ?sm = "smoothedData config (detrendedOf config combinedData)"
  from assms obtain i where i: "i \<in> set [1..<length ?sm - 1]" "p = mkPeak (?sm ! i) i"
    unfolding peaksOf_def findPeaks_eq by auto
  then have lt: "i < length combinedData" by auto
  with i(2) show "index p < length combinedData" by simp
  have a: "map time ?sm ! i = time (?sm ! i)" by (rule nth_map) (simp add: lt)
  have b: "map time combinedData ! i = time (combinedData ! i)" by (rule nth_map) (rule lt)
  have c: "map time ?sm = map time combinedData" by simp
  have "time (?sm ! i) = map time ?sm ! i" by (rule a [symmetric])
  also have "\<dots> = map time combinedData ! i" by (simp only: c)
  also note b
  finally show "time p = time (combinedData ! index p)" using i(2) by simp
qed

lemma endTime_atomOf [simp]: "endTime (atomOf i startPeak endPeak) = time endPeak"
  by (simp add: atomOf_def Let_def)

lemma repCount_atomOf [simp]: "repCount (atomOf i startPeak endPeak) = 1"
  by (simp add: atomOf_def Let_def)

text \<open>
  On samples taken at times that are not negative, with a sampling rate that is not
  negative, the stages after the sampling raise no exception.
\<close>

lemma loopsOf_returns:
  assumes "\<forall>d \<in> set combinedData. 0 \<le> time d" and "0 \<le> samplingRate config"
  shows "\<exists>final. loopsOf config now combinedData = Inr final"
proof -
  let ?d = "detrendedOf config combinedData"
  let ?ps = "peaksOf config combinedData"
  have idx: "detectSceneChanges config \<longrightarrow> (\<forall>p \<in> set ?ps. index p \<le> length ?d)"
    using peaksOf_facts(1) [of _ config combinedData] by (auto intro: less_imp_le)
  have times: "0 \<le> time p" if "p \<in> set ?ps" for p
  proof -
    from peaksOf_facts [OF that] have "combinedData ! index p \<in> set combinedData"
      and "time p = time (combinedData ! index p)" by simp_all
    with assms(1) show ?thesis by simp
  qed
  from atomicLoops_eq [OF idx] obtain atomic where
    a: "atomicLoops config ?d ?ps = Inr atomic"
    and atomic: "atomic = map (\<lambda>i. atomOf i (?ps ! i) (?ps ! (i + 1)))
                  (filter (\<lambda>i. \<not> (detectSceneChanges config
                                    \<and> (\<exists>k. index (?ps ! i) \<le> k \<and> k < index (?ps ! (i + 1))
                                            \<and> isSceneCut (?d ! k)))
                               \<and> minLoopDuration config \<le> time (?ps ! (i + 1)) - time (?ps ! i)
                               \<and> time (?ps ! (i + 1)) - time (?ps ! i) \<le> maxLoopDuration config)
                     [0..<length ?ps - 1])"
    by blast
  have ends: "\<forall>l \<in> set atomic. 0 \<le> endTime l * samplingRate config"
  proof
    fix l assume "l \<in> set atomic"
    then obtain i where "i \<in> set [0..<length ?ps - 1]" and l: "l = atomOf i (?ps ! i) (?ps ! (i + 1))"
      unfolding atomic by auto
    then have "i + 1 < length ?ps" by auto
    then have "?ps ! (i + 1) \<in> set ?ps" by (rule nth_mem)
    then have "0 \<le> time (?ps ! (i + 1))" by (rule times)
    with assms(2) l show "0 \<le> endTime l * samplingRate config" by simp
  qed
  have "\<exists>final. finalLoops config now ?d atomic = Inr final"
  proof (cases "detectionMode config")
    case Reps
    then show ?thesis by (simp add: finalLoops_reps)
  next
    case Sets
    from finalLoops_sets [OF Sets, of atomic now ?d] ends show ?thesis by blast
  qed
  with a show ?thesis by (simp add: loopsOf_def Let_def)
qed

subsection \<open>Runs\<close>

lemma map_eq_all:
  assumes "map g xs = map g ys" and "\<forall>y \<in> set ys. P (g y)"
  shows "\<forall>x \<in> set xs. P (g x)"
proof
  fix x assume "x \<in> set xs"
  then have "g x \<in> set (map g xs)" by simp
  then have "g x \<in> set (map g ys)" by (simp only: assms(1))
  then obtain y where "y \<in> set ys" "g x = g y" by auto
  with assms(2) show "P (g x)" by simp
qed

lemma length_withThumbs [simp]: "length (withThumbs env final) = length final"
  by (simp add: withThumbs_def)

lemma progressOf_append [simp]: "progressOf (xs @ ys) = progressOf xs @ progressOf ys"
  by (simp add: progressOf_def)

lemma progressOf_Nil [simp]: "progressOf [] = []"
  by (simp add: progressOf_def)

lemma progressOf_Cons [simp]:
  "progressOf (OnProgress p # es) = p # progressOf es"
  "progressOf (SetAppState a # es) = progressOf es"
  "progressOf (AddLog l m # es) = progressOf es"
  "progressOf (OnLoopsDetected ls # es) = progressOf es"
  "progressOf (OnMotionDataUpdate ds # es) = progressOf es"
  by (simp_all add: progressOf_def)

lemma progressOf_map [simp]: "progressOf (map OnProgress ps) = ps"
  by (induction ps) simp_all

lemma progressOf_audioSetup [simp]: "progressOf (snd (audioSetup env config)) = []"
  by (simp add: audioSetup_def split: option.splits)

lemma map_through:
  assumes "map g xs = map g ys"
  shows "map (\<lambda>d. f (g d)) xs = map (\<lambda>d. f (g d)) ys"
proof -
  have "map (\<lambda>d. f (g d)) xs = map f (map g xs)" by (simp add: comp_def)
  also have "\<dots> = map f (map g ys)" by (simp only: assms)
  also have "\<dots> = map (\<lambda>d. f (g d)) ys" by (simp add: comp_def)
  finally show ?thesis .
qed

lemma progressOf_map_sample [simp]:
  "progressOf (map (\<lambda>d. OnProgress (f d)) ds) = map f ds"
  by (induction ds) simp_all

text \<open>
  With the video, the canvas and its context in place and a positive sampling rate, a
  run ends, raises no exception and reports its results.
\<close>

lemma startAnalysis_completes:
  assumes "refsReady env" and "context2d env" and "0 < samplingRate config"
  shows "\<exists>st final.
           samplingLoop env (fst (audioSetup env config)) (1 / samplingRate config)
             (videoDuration env) 0 initialState = Some st
           \<and> loopsOf config (dateNow env) (st_combinedData st) = Inr final
           \<and> startAnalysis env config =
               Some ([SetAppState ANALYZING,
                      AddLog Info (StartingHybridAnalysis (100 - audioWeight config)
                                     (audioWeight config) (samplingRate config))]
                     @ snd (audioSetup env config) @ st_events st
                     @ (if ignoreSteadyMotion config then [AddLog Info AppliedHighPassFilter] else [])
                     @ [OnMotionDataUpdate (detrendedOf config (st_combinedData st)),
                        OnLoopsDetected (withThumbs env final),
                        AddLog Success (AnalysisComplete (length final)),
                        SetAppState READY])"
proof -
  have "0 < 1 / samplingRate config" using assms(3) by simp
  from samplingLoop_returns [OF this]
  obtain st where st: "samplingLoop env (fst (audioSetup env config)) (1 / samplingRate config)
             (videoDuration env) 0 initialState = Some st"
    by blast
  from samplingLoop_facts(2) [OF st] have "\<forall>d \<in> set (st_combinedData st). 0 \<le> time d"
    by blast
  moreover have "0 \<le> samplingRate config" using assms(3) by simp
  ultimately obtain final where final: "loopsOf config (dateNow env) (st_combinedData st) = Inr final"
    using loopsOf_returns by blast
  have "startAnalysis env config =
               Some ([SetAppState ANALYZING,
                      AddLog Info (StartingHybridAnalysis (100 - audioWeight config)
                                     (audioWeight config) (samplingRate config))]
                     @ snd (audioSetup env config) @ st_events st
                     @ (if ignoreSteadyMotion config then [AddLog Info AppliedHighPassFilter] else [])
                     @ [OnMotionDataUpdate (detrendedOf config (st_combinedData st)),
                        OnLoopsDetected (withThumbs env final),
                        AddLog Success (AnalysisComplete (length final)),
                        SetAppState READY])"
    using assms(1,2) st final
    by (simp add: startAnalysis_def postProcessing_def Let_def case_prod_beta)
  with st final show ?thesis by blast
qed

text \<open>
  C2, as the code has it. A run with a positive sampling rate ends. Every progress value
  it reports is \<open>t / duration * 100\<close> for a time \<open>0 \<le> t < duration\<close>, so all of them lie in
  \<open>[0, 100)\<close> and 100 is never reported; a duration that is not positive gives no
  progress value at all. In a run that gets past the set-up, the progress values are, in
  order, \<open>time / duration * 100\<close> of the samples handed to the motion-data callback: one
  value for each sample.
\<close>

theorem C2_progress_below_100:
  assumes "0 < samplingRate config"
  shows "\<exists>events. startAnalysis env config = Some events
           \<and> (\<forall>p \<in> set (progressOf events).
                 0 \<le> p \<and> p < 100
                 \<and> (\<exists>t. 0 \<le> t \<and> t < videoDuration env \<and> p = t / videoDuration env * 100))
           \<and> 100 \<notin> set (progressOf events)
           \<and> (videoDuration env \<le> 0 \<longrightarrow> progressOf events = [])
           \<and> (refsReady env \<and> context2d env \<longrightarrow>
                (\<exists>samples. OnMotionDataUpdate samples \<in> set events
                   \<and> progressOf events = map (\<lambda>d. time d / videoDuration env * 100) samples))"
proof (cases "refsReady env \<and> context2d env")
  case True
  then have r: "refsReady env" and c: "context2d env" by simp_all
  from startAnalysis_completes [OF r c assms] obtain st final where
    st: "samplingLoop env (fst (audioSetup env config)) (1 / samplingRate config)
           (videoDuration env) 0 initialState = Some st"
    and run: "startAnalysis env config =
             Some ([SetAppState ANALYZING,
                    AddLog Info (StartingHybridAnalysis (100 - audioWeight config)
                                   (audioWeight config) (samplingRate config))]
                   @ snd (audioSetup env config) @ st_events st
                   @ (if ignoreSteadyMotion config then [AddLog Info AppliedHighPassFilter] else [])
                   @ [OnMotionDataUpdate (detrendedOf config (st_combinedData st)),
                      OnLoopsDetected (withThumbs env final),
                      AddLog Success (AnalysisComplete (length final)),
                      SetAppState READY])"
    by blast
  let ?events = "[SetAppState ANALYZING,
                    AddLog Info (StartingHybridAnalysis (100 - audioWeight config)
                                   (audioWeight config) (samplingRate config))]
                   @ snd (audioSetup env config) @ st_events st
                   @ (if ignoreSteadyMotion config then [AddLog Info AppliedHighPassFilter] else [])
                   @ [OnMotionDataUpdate (detrendedOf config (st_combinedData st)),
                      OnLoopsDetected (withThumbs env final),
                      AddLog Success (AnalysisComplete (length final)),
                      SetAppState READY]"
  let ?dur = "videoDuration env"
  note facts = samplingLoop_progress [OF st]
  have prog: "progressOf ?events = map (\<lambda>d. time d / ?dur * 100) (st_combinedData st)"
    by (simp add: facts(1))
  have each: "0 \<le> p \<and> p < 100 \<and> (\<exists>t. 0 \<le> t \<and> t < ?dur \<and> p = t / ?dur * 100)"
    if "p \<in> set (progressOf ?events)" for p
  proof -
    from that obtain d where d: "d \<in> set (st_combinedData st)" and p: "p = time d / ?dur * 100"
      unfolding prog by auto
    from facts(2) d have t: "0 \<le> time d" "time d < ?dur" by simp_all
    then have "0 < ?dur" by simp
    with t have "0 \<le> time d / ?dur * 100" "time d / ?dur * 100 < 100"
      by (simp_all add: field_simps)
    with t p show ?thesis by blast
  qed
  then have never: "100 \<notin> set (progressOf ?events)" by fastforce
  have none: "?dur \<le> 0 \<longrightarrow> progressOf ?events = []"
    using facts(3) prog by simp
  have "map (\<lambda>d. time d / ?dur * 100) (detrendedOf config (st_combinedData st))
          = map (\<lambda>d. time d / ?dur * 100) (st_combinedData st)"
    by (rule map_through) (rule time_detrendedOf)
  then have shown: "progressOf ?events
      = map (\<lambda>d. time d / ?dur * 100) (detrendedOf config (st_combinedData st))"
    using prog by simp
  have mem: "OnMotionDataUpdate (detrendedOf config (st_combinedData st)) \<in> set ?events"
    by simp
  from each never none shown mem show ?thesis
    unfolding run by blast
next
  case False
  then have "startAnalysis env config = Some []
             \<or> startAnalysis env config =
                  Some ([SetAppState ANALYZING,
                         AddLog Info (StartingHybridAnalysis (100 - audioWeight config)
                                        (audioWeight config) (samplingRate config))]
                        @ [AddLog Error CanvasContextFailed, SetAppState READY])"
    by (auto simp: startAnalysis_def Let_def)
  with False show ?thesis by auto
qed

lemmas run_eval =
  startAnalysis_def audioSetup_def samplingLoop.simps sampleStep_def captureFrame_def grayOf_def
  initialState_def postProcessing_def loopsOf_def withThumbs_def

lemma run_env_trace:
  "startAnalysis run_env cut_config =
     Some [SetAppState ANALYZING, AddLog Info (StartingHybridAnalysis 100 0 2),
           OnProgress 0, OnProgress 50,
           OnMotionDataUpdate [rawSample 0 0 0, rawSample (1 / 2) 0 0],
           OnLoopsDetected [], AddLog Success (AnalysisComplete 0), SetAppState READY]"
  by (simp add: run_eval pipeline_eval atomic_eval sets_eval run_env_def cut_config_def
        rawSample_def)

theorem C2_progress_below_100_witness:
  "0 < samplingRate cut_config \<and> refsReady run_env \<and> context2d run_env
   \<and> (\<exists>events. startAnalysis run_env cut_config = Some events
         \<and> progressOf events = [0 / 1 * 100, (1 / 2) / 1 * 100]
         \<and> 100 \<notin> set (progressOf events)
         \<and> (\<exists>samples. OnMotionDataUpdate samples \<in> set events
               \<and> map time samples = [0, 1 / 2]
               \<and> progressOf events = map (\<lambda>d. time d / videoDuration run_env * 100) samples))
   \<and> videoDuration (run_env\<lparr>videoDuration := 0\<rparr>) \<le> 0
   \<and> (\<exists>events. startAnalysis (run_env\<lparr>videoDuration := 0\<rparr>) cut_config = Some events
         \<and> progressOf events = [])"
proof -
  have rate: "0 < samplingRate cut_config" by (simp add: cut_config_def)
  have here: "refsReady run_env" "context2d run_env" by (simp_all add: run_env_def)
  have one: "\<exists>events. startAnalysis run_env cut_config = Some events
         \<and> progressOf events = [0 / 1 * 100, (1 / 2) / 1 * 100]
         \<and> 100 \<notin> set (progressOf events)
         \<and> (\<exists>samples. OnMotionDataUpdate samples \<in> set events
               \<and> map time samples = [0, 1 / 2]
               \<and> progressOf events = map (\<lambda>d. time d / videoDuration run_env * 100) samples)"
    using C2_progress_below_100 [OF rate, of run_env]
    by (simp add: run_env_trace) (simp add: run_env_def rawSample_def)
  have none: "videoDuration (run_env\<lparr>videoDuration := 0\<rparr>) \<le> 0" by simp
  from C2_progress_below_100 [OF rate, of "run_env\<lparr>videoDuration := 0\<rparr>"] none
  have zero: "\<exists>events. startAnalysis (run_env\<lparr>videoDuration := 0\<rparr>) cut_config = Some events
         \<and> progressOf events = []"
    by blast
  from rate here one none zero show ?thesis by blast
qed

text \<open>
  The claim as written, refuted: the run over the one-second clip \<open>run_env\<close> at two
  samples a second ends with a success log and the state \<open>READY\<close>; the progress values it
  reports are 0 and 50, and the last of them is not 100.
\<close>

theorem C2_counterexample:
  "startAnalysis run_env cut_config =
     Some [SetAppState ANALYZING, AddLog Info (StartingHybridAnalysis 100 0 2),
           OnProgress 0, OnProgress 50,
           OnMotionDataUpdate [rawSample 0 0 0, rawSample (1 / 2) 0 0],
           OnLoopsDetected [], AddLog Success (AnalysisComplete 0), SetAppState READY]
   \<and> map_option progressOf (startAnalysis run_env cut_config) = Some [0, 50]
   \<and> map_option (\<lambda>events. last (progressOf events)) (startAnalysis run_env cut_config) \<noteq> Some 100"
  by (simp add: run_env_trace)

text \<open>
  Whatever the frames and the audio are, a one-second clip sampled twice a second
  reports the progress values 0 and 50 and nothing more.
\<close>

lemma two_sample_progress:
  assumes "refsReady env" and "context2d env" and "videoDuration env = 1"
    and "samplingRate config = 2"
  shows "map_option progressOf (startAnalysis env config) = Some [0, 50]"
proof -
  have pos: "0 < samplingRate config" using assms(4) by simp
  from startAnalysis_completes [OF assms(1,2) pos] obtain st final where
    st: "samplingLoop env (fst (audioSetup env config)) (1 / samplingRate config)
             (videoDuration env) 0 initialState = Some st"
    and run: "startAnalysis env config =
               Some ([SetAppState ANALYZING,
                      AddLog Info (StartingHybridAnalysis (100 - audioWeight config)
                                     (audioWeight config) (samplingRate config))]
                     @ snd (audioSetup env config) @ st_events st
                     @ (if ignoreSteadyMotion config then [AddLog Info AppliedHighPassFilter] else [])
                     @ [OnMotionDataUpdate (detrendedOf config (st_combinedData st)),
                        OnLoopsDetected (withThumbs env final),
                        AddLog Success (AnalysisComplete (length final)),
                        SetAppState READY])"
    by blast
  from st have "st_events st = [OnProgress 0, OnProgress 50]"
    unfolding assms(3,4)
    by (auto simp: samplingLoop.simps sampleStep_fields initialState_def)
  then show ?thesis
    unfolding run by simp
qed

text \<open>
  C9. When the audio track does not decode, or the audio weight is 0 so that decoding is
  not tried, a run (with the video, the canvas and its context in place and a positive
  sampling rate) ends in the state \<open>READY\<close> after reporting its loops and a success log;
  the only trace of the failure is a warning, logged when decoding was tried; no
  error-level log is made; and every sample has the audio score 0.
\<close>

theorem C9_audio_failure_degrades:
  assumes "refsReady env" and "context2d env" and "0 < samplingRate config"
    and "decodeAudioData env = None \<or> audioWeight config \<le> 0"
  shows "\<exists>ps detrended loops.
           startAnalysis env config =
             Some ([SetAppState ANALYZING,
                    AddLog Info (StartingHybridAnalysis (100 - audioWeight config)
                                   (audioWeight config) (samplingRate config))]
                   @ (if audioWeight config > 0
                      then [AddLog Info DecodingAudioTrack, AddLog Warn FailedToDecodeAudio] else [])
                   @ map OnProgress ps
                   @ (if ignoreSteadyMotion config then [AddLog Info AppliedHighPassFilter] else [])
                   @ [OnMotionDataUpdate detrended, OnLoopsDetected loops,
                      AddLog Success (AnalysisComplete (length loops)), SetAppState READY])
           \<and> (\<forall>d \<in> set detrended. raw_a d = 0)"
proof -
  from assms(4) have au: "audioSetup env config =
      (None, if audioWeight config > 0
             then [AddLog Info DecodingAudioTrack, AddLog Warn FailedToDecodeAudio] else [])"
    by (auto simp: audioSetup_def)
  from startAnalysis_completes [OF assms(1-3)] obtain st final where
    st: "samplingLoop env None (1 / samplingRate config) (videoDuration env) 0 initialState = Some st"
    and run: "startAnalysis env config =
               Some ([SetAppState ANALYZING,
                      AddLog Info (StartingHybridAnalysis (100 - audioWeight config)
                                     (audioWeight config) (samplingRate config))]
                     @ (if audioWeight config > 0
                        then [AddLog Info DecodingAudioTrack, AddLog Warn FailedToDecodeAudio] else [])
                     @ st_events st
                     @ (if ignoreSteadyMotion config then [AddLog Info AppliedHighPassFilter] else [])
                     @ [OnMotionDataUpdate (detrendedOf config (st_combinedData st)),
                        OnLoopsDetected (withThumbs env final),
                        AddLog Success (AnalysisComplete (length final)),
                        SetAppState READY])"
    unfolding au fst_conv snd_conv by blast
  from samplingLoop_facts(1) [OF st] obtain ps where ps: "st_events st = map OnProgress ps"
    by blast
  from samplingLoop_facts(3) [OF st] have "\<forall>d \<in> set (st_combinedData st). raw_a d = 0"
    by simp
  with raw_a_detrendedOf [of config "st_combinedData st"]
  have silent: "\<forall>d \<in> set (detrendedOf config (st_combinedData st)). raw_a d = 0"
    by (rule map_eq_all)
  have "startAnalysis env config =
             Some ([SetAppState ANALYZING,
                    AddLog Info (StartingHybridAnalysis (100 - audioWeight config)
                                   (audioWeight config) (samplingRate config))]
                   @ (if audioWeight config > 0
                      then [AddLog Info DecodingAudioTrack, AddLog Warn FailedToDecodeAudio] else [])
                   @ map OnProgress ps
                   @ (if ignoreSteadyMotion config then [AddLog Info AppliedHighPassFilter] else [])
                   @ [OnMotionDataUpdate (detrendedOf config (st_combinedData st)),
                      OnLoopsDetected (withThumbs env final),
                      AddLog Success (AnalysisComplete (length (withThumbs env final))),
                      SetAppState READY])"
    unfolding run ps by simp
  with silent show ?thesis by blast
qed

lemma run_env_audio_trace:
  "startAnalysis run_env ex_audio_config =
     Some [SetAppState ANALYZING, AddLog Info (StartingHybridAnalysis 80 20 2),
           AddLog Info DecodingAudioTrack, AddLog Warn FailedToDecodeAudio,
           OnProgress 0, OnProgress 50,
           OnMotionDataUpdate [rawSample 0 0 0, rawSample (1 / 2) 0 0],
           OnLoopsDetected [], AddLog Success (AnalysisComplete 0), SetAppState READY]"
  by (simp add: run_eval pipeline_eval atomic_eval sets_eval run_env_def ex_audio_config_def
        ex_config_def rawSample_def)

theorem C9_audio_failure_degrades_witness:
  "refsReady run_env \<and> context2d run_env \<and> 0 < samplingRate ex_audio_config
   \<and> decodeAudioData run_env = None \<and> 0 < audioWeight ex_audio_config
   \<and> (\<exists>ps detrended loops.
         startAnalysis run_env ex_audio_config =
           Some ([SetAppState ANALYZING, AddLog Info (StartingHybridAnalysis 80 20 2)]
                 @ [AddLog Info DecodingAudioTrack, AddLog Warn FailedToDecodeAudio]
                 @ map OnProgress ps
                 @ [OnMotionDataUpdate detrended, OnLoopsDetected loops,
                    AddLog Success (AnalysisComplete (length loops)), SetAppState READY])
         \<and> (\<forall>d \<in> set detrended. raw_a d = 0))"
  using C9_audio_failure_degrades [of run_env ex_audio_config]
  by (simp add: run_env_def ex_audio_config_def ex_config_def)

end
